theory Spec2Isabelle
  imports Main "HOL-Library.Sublist" "HOL-Library.AList"
begin

section \<open>Python strings\<close>

text \<open>
  A Python \<open>str\<close> is a sequence of Unicode code points. The characters that
  \<open>RootCommand.__init__\<close> looks for lie outside ASCII, so a string is a list of code
  points (\<open>nat\<close>) rather than a list of 8-bit \<open>char\<close>s. \<open>lit\<close> embeds an ASCII
  literal.
\<close>

type_synonym str = "nat list"

definition lit :: "string \<Rightarrow> str" where
  "lit s = map of_char s"

text \<open>\<open>sep.join(xs)\<close>\<close>

fun join :: "str \<Rightarrow> str list \<Rightarrow> str" where
  "join sep [] = []"
| "join sep [x] = x"
| "join sep (x # y # ys) = x @ sep @ join sep (y # ys)"

text \<open>\<open>x in s\<close> on two strings: \<open>x\<close> occurs in \<open>s\<close> as a contiguous substring.\<close>

fun str_in :: "str \<Rightarrow> str \<Rightarrow> bool" where
  "str_in x [] = (x = [])"
| "str_in x (c # cs) = (prefix x (c # cs) \<or> str_in x cs)"

text \<open>
  The whitespace class of \<open>re\<close> on \<open>str\<close> patterns (\<open>\s\<close>, and its complement
  \<open>\S\<close>): the code points for which \<open>str.isspace\<close> holds.
\<close>

definition py_isspace :: "nat \<Rightarrow> bool" where
  "py_isspace c \<longleftrightarrow>
     (9 \<le> c \<and> c \<le> 13) \<or> (28 \<le> c \<and> c \<le> 32) \<or> c = 133 \<or> c = 160 \<or> c = 5760 \<or>
     (8192 \<le> c \<and> c \<le> 8202) \<or> c = 8232 \<or> c = 8233 \<or> c = 8239 \<or> c = 8287 \<or> c = 12288"

section \<open>Regular expressions (the fragment \<open>category_regex\<close> uses)\<close>

text \<open>
  \<open>category_regex = re.compile(r'--m-(\S+)-category')\<close> is a concatenation of literal
  characters and one capturing group that holds a greedy \<open>+\<close> over a character class.
  A pattern is a list of such items; \<open>fullmatch\<close> is the backtracking matcher of
  \<open>re\<close>: an item that can repeat first takes as many characters as it can and gives
  them back one at a time until the rest of the pattern matches the rest of the string
  up to its end. The result is the list of captured groups (\<open>match.groups()\<close>), or
  \<open>None\<close> where \<open>re\<close> returns \<open>None\<close>.
\<close>

datatype cls = Chr nat | NonSpace

datatype re_item = One cls | PlusGroup cls

fun cls_ok :: "cls \<Rightarrow> nat \<Rightarrow> bool" where
  "cls_ok (Chr a) c = (c = a)"
| "cls_ok NonSpace c = (\<not> py_isspace c)"

fun fullmatch :: "re_item list \<Rightarrow> str \<Rightarrow> str list option"
  and give_back :: "re_item list \<Rightarrow> str \<Rightarrow> nat \<Rightarrow> str list option" where
  "fullmatch [] s = (if s = [] then Some [] else None)"
| "fullmatch (One a # r) s =
     (case s of [] \<Rightarrow> None | c # cs \<Rightarrow> if cls_ok a c then fullmatch r cs else None)"
| "fullmatch (PlusGroup a # r) s =
     (case give_back r s (length (takeWhile (cls_ok a) s)) of
        None \<Rightarrow> None
      | Some (g # gs) \<Rightarrow> Some (g # gs)
      | Some [] \<Rightarrow> None)"
| "give_back r s 0 = None"
| "give_back r s (Suc k) =
     (case fullmatch r (drop (Suc k) s) of
        Some gs \<Rightarrow> Some (take (Suc k) s # gs)
      | None \<Rightarrow> give_back r s k)"

definition literal :: "string \<Rightarrow> re_item list" where
  "literal s = map (\<lambda>c. One (Chr (of_char c))) s"

section \<open>Command-line output and termination\<close>

text \<open>
  \<open>click.echo(msg, err=...)\<close> and \<open>click.secho(msg, err=..., fg=..., bold=...)\<close> are
  recorded in the order they happen (message, \<open>err\<close>, and for \<open>secho\<close> the
  colour \<open>fg\<close> and \<open>bold\<close>). A function that may end the process returns what
  it printed together with either its value or the exit status.
\<close>

datatype echo =
    Echo str bool
  | Secho str bool string bool

text \<open>
  \<open>log\<close> of \<open>ActionCommand.__call__\<close>: \<open>None\<close>, the temporary file (by its name), or
  the string \<open>'stderr'\<close>.
\<close>

datatype log = LogNone | LogFile str | LogStderr

text \<open>
  How a function ends: it returns; it ends the process with a status (\<open>sys.exit\<close>,
  \<open>ctx.exit\<close>); a dictionary lookup raises \<open>KeyError\<close>, which nothing catches; or it
  calls \<open>q2cli.util.exit_with_error(e, header=..., traceback=...)\<close>.

  Modelled from the spec: \<open>q2cli.util.exit_with_error\<close> is not among the sources. The
  spec says of it: "this path never returns -- it terminates the process", with a non-zero
  status of its own choosing; it is therefore a way of ending, recorded with its arguments.
\<close>

datatype 'a outcome = Return 'a | Exit int | KeyError str | ExitWithError str str log

text \<open>Sequencing: what was printed so far is kept, and only \<open>Return\<close> continues.\<close>

fun bind :: "'e list \<times> 'a outcome \<Rightarrow> ('a \<Rightarrow> 'e list \<times> 'b outcome) \<Rightarrow> 'e list \<times> 'b outcome" where
  "bind (t, Return a) f = (case f a of (t', r) \<Rightarrow> (t @ t', r))"
| "bind (t, Exit n) f = (t, Exit n)"
| "bind (t, KeyError k) f = (t, KeyError k)"
| "bind (t, ExitWithError e h l) f = (t, ExitWithError e h l)"

section \<open>RootCommand\<close>

definition unicodes :: "str list" where
  "unicodes = [[0x2018], [0x2019], [0x201C], [0x201D], [0x2014]]"

definition category_regex :: "re_item list" where
  "category_regex = literal ''--m-'' @ [PlusGroup NonSpace] @ literal ''-category''"

text \<open>\<open>any(x in command for x in unicodes)\<close>\<close>

definition has_invalid_char :: "str \<Rightarrow> bool" where
  "has_invalid_char command = list_ex (\<lambda>x. str_in x command) unicodes"

text \<open>
  The loop over \<open>sys.argv\<close> of \<open>RootCommand.__init__\<close>, with its two accumulators
  \<open>invalid_chars\<close> and \<open>categories\<close>.
\<close>

fun scan_argv :: "str list \<Rightarrow> str list \<Rightarrow> (str \<times> str) list \<Rightarrow> str list \<times> (str \<times> str) list" where
  "scan_argv [] invalid_chars categories = (invalid_chars, categories)"
| "scan_argv (command # argv) invalid_chars categories =
     (let invalid_chars' =
            (if has_invalid_char command
             then invalid_chars @ [command] else invalid_chars);
          categories' =
            (case fullmatch category_regex command of
               Some [param_name] \<Rightarrow>
                 categories @ [(command, lit ''--m-'' @ param_name @ lit ''-column'')]
             | _ \<Rightarrow> categories)
      in scan_argv argv invalid_chars' categories')"

definition invalid_chars_msg :: "str list \<Rightarrow> str" where
  "invalid_chars_msg invalid_chars =
     lit ''Error: Detected invalid character in: '' @ join (lit '', '') invalid_chars @ [10] @
     lit ''Verify the correct quotes or dashes (ASCII) are being used.''"

definition old_to_new_names :: "(str \<times> str) list \<Rightarrow> str" where
  "old_to_new_names categories =
     join [10] (map (\<lambda>(old, new). lit ''Instead of '' @ old @ lit '', trying using '' @ new)
                    categories)"

definition categories_msg :: "(str \<times> str) list \<Rightarrow> str" where
  "categories_msg categories =
     lit ''Error: The following options no longer exist because metadata *categories* are now called metadata *columns* in QIIME 2.'' @
     [10, 10] @ old_to_new_names categories"

section \<open>Registry data\<close>

text \<open>
  The dictionaries of the plugin cache, as records. A signature entry has a \<open>type\<close>,
  a \<open>name\<close> and an \<open>ast\<close> whose \<open>type\<close> may be \<open>collection\<close>; its remaining
  keys are only handed on to the handler constructors.
\<close>

datatype item_type = Input | Parameter | Output

record item =
  item_type :: item_type
  item_name :: str
  ast_type :: str
  item_rest :: "(str \<times> str) list"

record action =
  action_id :: str
  action_name :: str
  action_description :: str
  signature :: "item list"

record plugin =
  plugin_name :: str
  version :: str
  website :: str
  description :: str
  short_description :: str
  user_support_text :: str
  actions :: "(str \<times> action) list"

text \<open>
  The state of a \<open>RootCommand\<close>: \<open>_plugins\<close>, a dictionary from plugin names to
  plugins, \<open>None\<close> until the snapshot is loaded (or injected).
\<close>

record RootCommand =
  plugins_snapshot :: "(str \<times> plugin) list option"

text \<open>
  \<open>RootCommand.__init__\<close> on the raw argument vector. \<open>Return\<close> is reached only
  through \<open>super().__init__\<close>, where click's own construction (and later its option
  parsing) starts; \<open>sys.exit(-1)\<close> ends the process before it.
\<close>

definition RootCommand_init :: "str list \<Rightarrow> echo list \<times> RootCommand outcome" where
  "RootCommand_init argv =
     (let (invalid_chars, categories) = scan_argv argv [] []
      in if invalid_chars \<noteq> [] \<or> categories \<noteq> [] then
           ((if invalid_chars \<noteq> []
             then [Secho (invalid_chars_msg invalid_chars) True ''red'' True] else []) @
            (if categories \<noteq> []
             then [Secho (categories_msg categories) True ''red'' True] else []),
            Exit (- 1))
         else ([], Return \<lparr>plugins_snapshot = None\<rparr>))"

text \<open>
  The property \<open>_plugin_lookup\<close>. \<open>cache\<close> is what \<open>q2cli.cache.CACHE.plugins\<close> holds
  at the time of the access; the third component counts the reads of it.
\<close>

fun name_map_loop :: "(str \<Rightarrow> str) \<Rightarrow> (str \<times> plugin) list \<Rightarrow> (str \<times> plugin) list \<Rightarrow> (str \<times> plugin) list" where
  "name_map_loop to_cli [] name_map = name_map"
| "name_map_loop to_cli ((name, plugin) # items) name_map =
     name_map_loop to_cli items
       (if actions plugin \<noteq> [] then AList.update (to_cli name) plugin name_map else name_map)"

definition plugin_lookup ::
  "(str \<Rightarrow> str) \<Rightarrow> (str \<times> plugin) list \<Rightarrow> RootCommand \<Rightarrow> (str \<times> plugin) list \<times> RootCommand \<times> nat" where
  "plugin_lookup to_cli cache self =
     (case plugins_snapshot self of
        None \<Rightarrow> (name_map_loop to_cli cache [], self\<lparr>plugins_snapshot := Some cache\<rparr>, 1)
      | Some plugins \<Rightarrow> (name_map_loop to_cli plugins [], self, 0))"

text \<open>
  A run makes one access after the other; \<open>caches\<close> lists what the cache holds at each
  of them. The result collects the name maps and adds up the reads.
\<close>

fun plugin_lookups ::
  "(str \<Rightarrow> str) \<Rightarrow> (str \<times> plugin) list list \<Rightarrow> RootCommand \<Rightarrow> (str \<times> plugin) list list \<times> RootCommand \<times> nat" where
  "plugin_lookups to_cli [] self = ([], self, 0)"
| "plugin_lookups to_cli (cache # caches) self =
     (case plugin_lookup to_cli cache self of
        (name_map, self', n) \<Rightarrow>
          (case plugin_lookups to_cli caches self' of
             (name_maps, self'', m) \<Rightarrow> (name_map # name_maps, self'', n + m)))"

section \<open>Handlers\<close>

text \<open>
  \<open>q2cli.handlers\<close> is not among the sources; \<open>commands.py\<close> uses a handler through
  \<^item> \<open>isinstance(handler, (MetadataHandler, MetadataColumnHandler))\<close>,
  \<^item> \<open>handler.get_value(verbose, kwargs, fallback=...)\<close> for those,
    \<open>handler.get_value(kwargs, fallback=...)\<close> otherwise (the first argument of
    \<open>get_value\<close> below is \<open>Some verbose\<close> or \<open>None\<close> accordingly), which returns a value
    or raises \<open>ValueNotFoundException\<close>, after which \<open>handler.missing\<close> is read,
  \<^item> \<open>handler.get_click_options()\<close>.
  \<open>kwargs\<close> is the dictionary of parsed flag values, by click name. A fallback is a
  function of the arguments it is called with, returning a value or raising
  \<open>ValueNotFoundException\<close> (\<open>None\<close>).
\<close>

type_synonym 'v kwargs = "str \<Rightarrow> 'v option"

type_synonym 'v fallback = "str list \<Rightarrow> 'v option"

datatype 'v found = Value 'v | ValueNotFound "str list"

datatype click_param = Option str | CitationsOption

record 'v handler =
  is_metadata :: bool
  get_value :: "bool option \<Rightarrow> 'v kwargs \<Rightarrow> 'v fallback \<Rightarrow> 'v found"
  get_click_options :: "click_param list"

record 'g meta_handler =
  meta_get_value :: 'g
  meta_click_options :: "click_param list"

text \<open>
  What \<open>commands.py\<close> takes from \<open>q2cli.util\<close> and \<open>q2cli.handlers\<close>, as
  parameters.
\<close>

record 'v q2cli =
  to_cli_name :: "str \<Rightarrow> str"
  citations_option :: click_param
  ArtifactHandler :: "item \<Rightarrow> 'v handler"
  parameter_handler_factory :: "item \<Rightarrow> 'v handler"
  ResultHandler :: "item \<Rightarrow> 'v handler"
  CollectionHandler :: "'v handler \<Rightarrow> item \<Rightarrow> 'v handler"
  VerboseHandler :: "('v kwargs \<Rightarrow> 'v fallback \<Rightarrow> bool) meta_handler"
  QuietHandler :: "('v kwargs \<Rightarrow> 'v fallback \<Rightarrow> bool) meta_handler"
  OutputDirHandler :: "('v kwargs \<Rightarrow> 'v fallback \<Rightarrow> 'v fallback) meta_handler"
  CommandConfigHandler :: "str \<Rightarrow> str \<Rightarrow> ('v kwargs \<Rightarrow> 'v fallback) meta_handler"

section \<open>ActionCommand\<close>

record 'v ActionCommand =
  ac_name :: str
  ac_plugin :: plugin
  ac_action :: action
  generated_handlers :: "(str \<times> 'v handler) list"
  verbose_handler :: "('v kwargs \<Rightarrow> 'v fallback \<Rightarrow> bool) meta_handler"
  quiet_handler :: "('v kwargs \<Rightarrow> 'v fallback \<Rightarrow> bool) meta_handler"
  output_dir_handler :: "('v kwargs \<Rightarrow> 'v fallback \<Rightarrow> 'v fallback) meta_handler"
  cmd_config_handler :: "('v kwargs \<Rightarrow> 'v fallback) meta_handler"
  ac_params :: "click_param list"
  ac_short_help :: str
  ac_help :: str

text \<open>
  \<open>build_generated_handlers\<close>: \<open>handler_map[type](**item)\<close>, wrapped in a
  \<open>CollectionHandler\<close> when \<open>item['ast']['type'] == 'collection'\<close>, stored under the
  entry's name in an ordered dictionary.
\<close>

definition handler_map :: "'v q2cli \<Rightarrow> item_type \<Rightarrow> item \<Rightarrow> 'v handler" where
  "handler_map q t =
     (case t of Input \<Rightarrow> ArtifactHandler q
              | Parameter \<Rightarrow> parameter_handler_factory q
              | Output \<Rightarrow> ResultHandler q)"

fun build_generated_handlers ::
  "'v q2cli \<Rightarrow> item list \<Rightarrow> (str \<times> 'v handler) list \<Rightarrow> (str \<times> 'v handler) list" where
  "build_generated_handlers q [] handlers = handlers"
| "build_generated_handlers q (item # items) handlers =
     (let handler =
            (if ast_type item = lit ''collection''
             then CollectionHandler q (handler_map q (item_type item) item) item
             else handler_map q (item_type item) item)
      in build_generated_handlers q items (AList.update (item_name item) handler handlers))"

definition get_click_parameters ::
  "'v q2cli \<Rightarrow> (str \<times> 'v handler) list \<Rightarrow> ('v kwargs \<Rightarrow> 'v fallback \<Rightarrow> 'v fallback) meta_handler \<Rightarrow>
   ('v kwargs \<Rightarrow> 'v fallback) meta_handler \<Rightarrow> ('v kwargs \<Rightarrow> 'v fallback \<Rightarrow> bool) meta_handler \<Rightarrow>
   ('v kwargs \<Rightarrow> 'v fallback \<Rightarrow> bool) meta_handler \<Rightarrow> click_param list" where
  "get_click_parameters q handlers output_dir cmd_config verbose quiet =
     concat (map (\<lambda>(name, handler). get_click_options handler) handlers) @
     meta_click_options output_dir @ meta_click_options cmd_config @
     meta_click_options verbose @ meta_click_options quiet @
     [citations_option q]"

definition ActionCommand_init :: "'v q2cli \<Rightarrow> str \<Rightarrow> plugin \<Rightarrow> action \<Rightarrow> 'v ActionCommand" where
  "ActionCommand_init q name plugin action =
     (let handlers = build_generated_handlers q (signature action) [];
          cmd_config = CommandConfigHandler q (to_cli_name q (plugin_name plugin))
                                              (to_cli_name q (action_id action))
      in \<lparr>ac_name = name, ac_plugin = plugin, ac_action = action,
          generated_handlers = handlers,
          verbose_handler = VerboseHandler q, quiet_handler = QuietHandler q,
          output_dir_handler = OutputDirHandler q, cmd_config_handler = cmd_config,
          ac_params = get_click_parameters q handlers (OutputDirHandler q) cmd_config
                        (VerboseHandler q) (QuietHandler q),
          ac_short_help = action_name action, ac_help = action_description action\<rparr>)"

text \<open>
  What happens during \<open>ActionCommand.__call__\<close>, in order: a line printed, the call of a
  generated handler's \<open>get_value\<close> for a signature entry, the creation of the log file
  (\<open>prefix\<close>, \<open>suffix\<close>, \<open>delete\<close>, \<open>mode\<close>), the call of the action under
  \<open>redirected_stdio(stdout=..., stderr=...)\<close>, \<open>log.close()\<close>, \<open>os.remove(log.name)\<close>
  and \<open>result.save(output)\<close>.
\<close>

record 'v result =
  result_type :: str
  save :: "'v \<Rightarrow> str"

datatype 'v event =
    Print echo
  | Resolve str
  | NamedTemporaryFile str str bool string
  | Action "(str \<times> 'v) list" log log
  | Close str
  | Remove str
  | Save "'v result" 'v

text \<open>
  The surroundings of one invocation: the help text of the parent context, the name the
  temporary file gets, what \<open>os.path.exists\<close> answers in the \<open>finally\<close> block, and the
  action \<open>self._get_action()\<close> of the execution engine, which returns its results or
  raises (\<open>Inl\<close>).
\<close>

record 'v env =
  parent_get_help :: str
  log_name :: str
  path_exists :: "str \<Rightarrow> bool"
  run_action :: "(str \<times> 'v) list \<Rightarrow> str + 'v result list"

text \<open>
  The loop of \<open>handle_in_params\<close>. After \<open>ValueNotFoundException\<close> the names in
  \<open>handler.missing\<close> are added to \<open>missing\<close>.
\<close>

fun in_params_loop ::
  "'v ActionCommand \<Rightarrow> bool \<Rightarrow> 'v kwargs \<Rightarrow> 'v fallback \<Rightarrow> item list \<Rightarrow>
   (str \<times> 'v) list \<Rightarrow> str list \<Rightarrow> 'v event list \<times> ((str \<times> 'v) list \<times> str list) outcome" where
  "in_params_loop self verbose kwargs cmd_fallback [] arguments missing =
     ([], Return (arguments, missing))"
| "in_params_loop self verbose kwargs cmd_fallback (item # items) arguments missing =
     (if item_type item = Input \<or> item_type item = Parameter then
        (case map_of (generated_handlers self) (item_name item) of
           None \<Rightarrow> ([], KeyError (item_name item))
         | Some handler \<Rightarrow>
             bind ([Resolve (item_name item)],
                   Return (if is_metadata handler
                           then get_value handler (Some verbose) kwargs cmd_fallback
                           else get_value handler None kwargs cmd_fallback))
               (\<lambda>r. case r of
                  Value v \<Rightarrow>
                    in_params_loop self verbose kwargs cmd_fallback items
                      (AList.update (item_name item) v arguments) missing
                | ValueNotFound handler_missing \<Rightarrow>
                    in_params_loop self verbose kwargs cmd_fallback items
                      arguments (missing @ handler_missing)))
      else in_params_loop self verbose kwargs cmd_fallback items arguments missing)"

definition handle_in_params ::
  "'v ActionCommand \<Rightarrow> 'v kwargs \<Rightarrow>
   'v event list \<times> ((str \<times> 'v) list \<times> str list \<times> bool \<times> bool) outcome" where
  "handle_in_params self kwargs =
     (let cmd_fallback = meta_get_value (cmd_config_handler self) kwargs;
          verbose = meta_get_value (verbose_handler self) kwargs cmd_fallback;
          quiet = meta_get_value (quiet_handler self) kwargs cmd_fallback
      in if verbose \<and> quiet then
           ([Print (Secho (lit ''Unsure of how to be quiet and verbose at the same time.'')
                     True ''red'' True)],
            Exit 1)
         else
           bind (in_params_loop self verbose kwargs cmd_fallback
                   (signature (ac_action self)) [] [])
             (\<lambda>(arguments, missing). ([], Return (arguments, missing, verbose, quiet))))"

text \<open>
  The composite fallback of \<open>handle_out_params\<close>:
  \<^verbatim>\<open>try: return cmd_fallback(*args)
except ValueNotFoundException: return out_fallback(*args)\<close>
\<close>

definition fallback :: "'v fallback \<Rightarrow> 'v fallback \<Rightarrow> 'v fallback" where
  "fallback cmd_fallback out_fallback args =
     (case cmd_fallback args of Some v \<Rightarrow> Some v | None \<Rightarrow> out_fallback args)"

fun out_params_loop ::
  "'v ActionCommand \<Rightarrow> 'v kwargs \<Rightarrow> 'v fallback \<Rightarrow> item list \<Rightarrow>
   'v list \<Rightarrow> str list \<Rightarrow> 'v event list \<times> ('v list \<times> str list) outcome" where
  "out_params_loop self kwargs fb [] outputs missing = ([], Return (outputs, missing))"
| "out_params_loop self kwargs fb (item # items) outputs missing =
     (if item_type item = Output then
        (case map_of (generated_handlers self) (item_name item) of
           None \<Rightarrow> ([], KeyError (item_name item))
         | Some handler \<Rightarrow>
             bind ([Resolve (item_name item)], Return (get_value handler None kwargs fb))
               (\<lambda>r. case r of
                  Value v \<Rightarrow> out_params_loop self kwargs fb items (outputs @ [v]) missing
                | ValueNotFound handler_missing \<Rightarrow>
                    out_params_loop self kwargs fb items outputs (missing @ handler_missing)))
      else out_params_loop self kwargs fb items outputs missing)"

definition handle_out_params ::
  "'v ActionCommand \<Rightarrow> 'v kwargs \<Rightarrow> 'v event list \<times> ('v list \<times> str list) outcome" where
  "handle_out_params self kwargs =
     (let cmd_fallback = meta_get_value (cmd_config_handler self) kwargs;
          out_fallback = meta_get_value (output_dir_handler self) kwargs cmd_fallback
      in out_params_loop self kwargs (fallback cmd_fallback out_fallback)
           (signature (ac_action self)) [] [])"

definition OUTPUT_OPTION_ERR_MSG :: str where
  "OUTPUT_OPTION_ERR_MSG =
     lit ''Note: When only providing names for a subset of the output Artifacts or'' @ [10] @
     lit ''Visualizations, you must specify an output directory through use of the'' @ [10] @
     lit ''--output-dir DIRECTORY flag.''"

text \<open>The block under \<open>if missing_in or missing_out\<close>.\<close>

definition report_missing :: "'v env \<Rightarrow> str list \<Rightarrow> str list \<Rightarrow> 'v event list \<times> 'a outcome" where
  "report_missing env missing_in missing_out =
     ([Print (Echo (parent_get_help env @ [10]) True)] @
      map (\<lambda>option. Print (Secho (lit ''Error: Missing option: --'' @ option) True ''red'' True))
          (missing_in @ missing_out) @
      (if missing_out \<noteq> [] then [Print (Echo OUTPUT_OPTION_ERR_MSG True)] else []),
      Exit 1)"

text \<open>
  The \<open>finally\<close> block:
  \<open>if log and cleanup_logfile and os.path.exists(log.name)\<close>. It is reached with a file
  as \<open>log\<close> whenever \<open>cleanup_logfile\<close> holds and \<open>log\<close> is not \<open>None\<close>.
\<close>

definition finally_block :: "'v env \<Rightarrow> log \<Rightarrow> bool \<Rightarrow> 'v event list" where
  "finally_block env log cleanup_logfile =
     (case log of
        LogFile name \<Rightarrow>
          if cleanup_logfile \<and> path_exists env name then [Close name, Remove name] else []
      | _ \<Rightarrow> [])"

text \<open>The loop \<open>for result, output in zip(results, outputs)\<close>.\<close>

fun save_results :: "bool \<Rightarrow> 'v result list \<Rightarrow> 'v list \<Rightarrow> 'v event list" where
  "save_results quiet (result # results) (output # outputs) =
     (let path = save result output
      in [Save result output] @
         (if \<not> quiet
          then [Print (Secho (lit ''Saved '' @ result_type result @ lit '' to: '' @ path)
                         False ''green'' False)]
          else []) @
         save_results quiet results outputs)"
| "save_results quiet results outputs = []"

text \<open>\<open>ActionCommand.__call__\<close> from \<open>action = self._get_action()\<close> on.\<close>

definition execute ::
  "'v q2cli \<Rightarrow> 'v env \<Rightarrow> 'v ActionCommand \<Rightarrow> (str \<times> 'v) list \<Rightarrow> 'v list \<Rightarrow> bool \<Rightarrow> bool \<Rightarrow>
   'v event list \<times> unit outcome" where
  "execute q env self arguments outputs verbose quiet =
     (let (created, log) =
            (if \<not> verbose
             then ([NamedTemporaryFile (lit ''qiime2-q2cli-err-'') (lit ''.log'') False ''w''],
                   LogFile (log_name env))
             else ([], LogNone))
      in case run_action env arguments of
           Inl e \<Rightarrow>
             (let header = lit ''Plugin error from '' @
                           to_cli_name q (plugin_name (ac_plugin self)) @ lit '':'';
                  log' = (if verbose then LogStderr else log)
              in (created @ [Action arguments log log] @ finally_block env log' False,
                  ExitWithError e header log'))
         | Inr results \<Rightarrow>
             (created @ [Action arguments log log] @ finally_block env log True @
              save_results quiet results outputs,
              Return ()))"

definition call ::
  "'v q2cli \<Rightarrow> 'v env \<Rightarrow> 'v ActionCommand \<Rightarrow> 'v kwargs \<Rightarrow> 'v event list \<times> unit outcome" where
  "call q env self kwargs =
     bind (handle_in_params self kwargs) (\<lambda>(arguments, missing_in, verbose, quiet).
     bind (handle_out_params self kwargs) (\<lambda>(outputs, missing_out).
       if missing_in \<noteq> [] \<or> missing_out \<noteq> [] then report_missing env missing_in missing_out
       else execute q env self arguments outputs verbose quiet))"

section \<open>PluginCommand\<close>

record PluginCommand =
  pc_plugin :: plugin
  action_lookup :: "(str \<times> action) list"
  pc_name :: str
  pc_short_help :: str
  pc_help :: str
  pc_params :: "click_param list"

text \<open>
  \<open>{q2cli.util.to_cli_name(id): a for id, a in plugin['actions'].items()}\<close>
\<close>

fun action_lookup_loop :: "(str \<Rightarrow> str) \<Rightarrow> (str \<times> action) list \<Rightarrow> (str \<times> action) list \<Rightarrow> (str \<times> action) list" where
  "action_lookup_loop to_cli [] lookup = lookup"
| "action_lookup_loop to_cli ((ident, a) # items) lookup =
     action_lookup_loop to_cli items (AList.update (to_cli ident) a lookup)"

definition PluginCommand_init :: "'v q2cli \<Rightarrow> plugin \<Rightarrow> str \<Rightarrow> PluginCommand" where
  "PluginCommand_init q plugin name =
     (let support = lit ''Getting user support: '' @ user_support_text plugin;
          website = lit ''Plugin website: '' @ website plugin;
          description = lit ''Description: '' @ description plugin
      in \<lparr>pc_plugin = plugin,
          action_lookup = action_lookup_loop (to_cli_name q) (actions plugin) [],
          pc_name = name,
          pc_short_help = short_description plugin,
          pc_help = join [10, 10] [description, website, support],
          pc_params = [Option (lit ''--version''), citations_option q]\<rparr>)"

text \<open>
  \<open>PluginCommand.get_command\<close>. \<open>repr\<close> is Python's \<open>repr\<close> on strings, which \<open>%r\<close>
  formats with.
\<close>

definition PluginCommand_get_command ::
  "(str \<Rightarrow> str) \<Rightarrow> 'v q2cli \<Rightarrow> PluginCommand \<Rightarrow> str \<Rightarrow> echo list \<times> 'v ActionCommand outcome" where
  "PluginCommand_get_command repr q self name =
     (case map_of (action_lookup self) name of
        None \<Rightarrow>
          ([Echo (lit ''Error: QIIME 2 plugin '' @ repr (plugin_name (pc_plugin self)) @
                  lit '' has no action '' @ repr name @ lit ''.'') True],
           Exit 2)
      | Some action \<Rightarrow> ([], Return (ActionCommand_init q name (pc_plugin self) action)))"

section \<open>Handler resolution, as the specification describes it\<close>

text \<open>
  Modelled from the spec: \<open>q2cli/handlers.py\<close> (\<open>Handler\<close> and its value lookup) is not
  among the sources. Section 4.4 of the spec: "Resolution order within a single handler is
  always: (a) explicit command-line value if present and non-default, (b) else invoke the
  fallback function with the handler's canonical option name(s), (c) else signal absent
  and record the canonical option name(s) as missing." \<open>kwargs click_name\<close> is \<open>Some v\<close>
  exactly for a value that is present and not the default.
\<close>

definition spec_locate_value :: "str \<Rightarrow> str list \<Rightarrow> 'v kwargs \<Rightarrow> 'v fallback \<Rightarrow> 'v found" where
  "spec_locate_value click_name names kwargs fb =
     (case kwargs click_name of
        Some v \<Rightarrow> Value v
      | None \<Rightarrow> (case fb names of Some v \<Rightarrow> Value v | None \<Rightarrow> ValueNotFound names))"

text \<open>
  Modelled from the spec: the handler of an output entry (\<open>ResultHandler\<close> of
  \<open>q2cli/handlers.py\<close>, not among the sources) resolves its value in the order of
  section 4.4 and is not a metadata handler.
\<close>

definition spec_ResultHandler :: "str \<Rightarrow> str list \<Rightarrow> 'v handler" where
  "spec_ResultHandler click_name names =
     \<lparr>is_metadata = False,
      get_value = (\<lambda>verbose. spec_locate_value click_name names),
      get_click_options = [Option click_name]\<rparr>"

text \<open>
  Modelled from the spec: the output-directory meta-handler (\<open>OutputDirHandler\<close> of
  \<open>q2cli/handlers.py\<close>, not among the sources). It resolves its own value, the declared
  output directory, in the order of section 4.4, and is then the fallback provider of the
  "output-directory convention (derive a path under the declared output directory from the
  parameter's default file name)"; with no output directory the convention has nothing to
  offer. \<open>derive\<close> builds the path.
\<close>

definition spec_OutputDirHandler ::
  "('v \<Rightarrow> str list \<Rightarrow> 'v) \<Rightarrow> str \<Rightarrow> str list \<Rightarrow> ('v kwargs \<Rightarrow> 'v fallback \<Rightarrow> 'v fallback) meta_handler" where
  "spec_OutputDirHandler derive click_name names =
     \<lparr>meta_get_value =
        (\<lambda>kwargs fb. case spec_locate_value click_name names kwargs fb of
           Value dir \<Rightarrow> (\<lambda>args. Some (derive dir args))
         | ValueNotFound missing \<Rightarrow> (\<lambda>args. None)),
      meta_click_options = [Option click_name]\<rparr>"

section \<open>Notions the statements use\<close>

text \<open>The element of \<open>categories\<close> a token gives rise to, if any.\<close>

definition renaming :: "str \<Rightarrow> (str \<times> str) list" where
  "renaming command =
     (case fullmatch category_regex command of
        Some [param_name] \<Rightarrow> [(command, lit ''--m-'' @ param_name @ lit ''-column'')]
      | _ \<Rightarrow> [])"

text \<open>
  The entries \<open>handle_in_params\<close> and \<open>handle_out_params\<close> resolve, in signature
  order, and the command whose every signature entry has a generated handler (as
  \<open>build_generated_handlers\<close> makes it).
\<close>

definition in_entries :: "'v ActionCommand \<Rightarrow> item list" where
  "in_entries self =
     filter (\<lambda>item. item_type item = Input \<or> item_type item = Parameter)
            (signature (ac_action self))"

definition out_entries :: "'v ActionCommand \<Rightarrow> item list" where
  "out_entries self = filter (\<lambda>item. item_type item = Output) (signature (ac_action self))"

definition has_handlers :: "'v ActionCommand \<Rightarrow> bool" where
  "has_handlers self \<longleftrightarrow>
     list_all (\<lambda>item. map_of (generated_handlers self) (item_name item) \<noteq> None)
              (signature (ac_action self))"

text \<open>
  The providers of one invocation: the command-config fallback, the two logging modes
  resolved against it, and the fallback output entries are resolved with.
\<close>

definition cmd_fallback_of :: "'v ActionCommand \<Rightarrow> 'v kwargs \<Rightarrow> 'v fallback" where
  "cmd_fallback_of self kwargs = meta_get_value (cmd_config_handler self) kwargs"

definition verbose_of :: "'v ActionCommand \<Rightarrow> 'v kwargs \<Rightarrow> bool" where
  "verbose_of self kwargs =
     meta_get_value (verbose_handler self) kwargs (cmd_fallback_of self kwargs)"

definition quiet_of :: "'v ActionCommand \<Rightarrow> 'v kwargs \<Rightarrow> bool" where
  "quiet_of self kwargs =
     meta_get_value (quiet_handler self) kwargs (cmd_fallback_of self kwargs)"

definition out_fallback_of :: "'v ActionCommand \<Rightarrow> 'v kwargs \<Rightarrow> 'v fallback" where
  "out_fallback_of self kwargs =
     meta_get_value (output_dir_handler self) kwargs (cmd_fallback_of self kwargs)"

text \<open>What the handler of an entry answers in \<open>handle_in_params\<close> and in \<open>handle_out_params\<close>.\<close>

definition in_value :: "'v ActionCommand \<Rightarrow> 'v kwargs \<Rightarrow> item \<Rightarrow> 'v found" where
  "in_value self kwargs item =
     (case map_of (generated_handlers self) (item_name item) of
        None \<Rightarrow> ValueNotFound []
      | Some handler \<Rightarrow>
          get_value handler
            (if is_metadata handler then Some (verbose_of self kwargs) else None)
            kwargs (cmd_fallback_of self kwargs))"

definition out_value :: "'v ActionCommand \<Rightarrow> 'v kwargs \<Rightarrow> item \<Rightarrow> 'v found" where
  "out_value self kwargs item =
     (case map_of (generated_handlers self) (item_name item) of
        None \<Rightarrow> ValueNotFound []
      | Some handler \<Rightarrow>
          get_value handler None kwargs
            (fallback (cmd_fallback_of self kwargs) (out_fallback_of self kwargs)))"

fun missing_names :: "'v found list \<Rightarrow> str list" where
  "missing_names [] = []"
| "missing_names (Value v # rs) = missing_names rs"
| "missing_names (ValueNotFound ms # rs) = ms @ missing_names rs"

fun found_values :: "'v found list \<Rightarrow> 'v list" where
  "found_values [] = []"
| "found_values (Value v # rs) = v # found_values rs"
| "found_values (ValueNotFound ms # rs) = found_values rs"

definition missing_in :: "'v ActionCommand \<Rightarrow> 'v kwargs \<Rightarrow> str list" where
  "missing_in self kwargs = missing_names (map (in_value self kwargs) (in_entries self))"

definition missing_out :: "'v ActionCommand \<Rightarrow> 'v kwargs \<Rightarrow> str list" where
  "missing_out self kwargs = missing_names (map (out_value self kwargs) (out_entries self))"

definition outputs_of :: "'v ActionCommand \<Rightarrow> 'v kwargs \<Rightarrow> 'v list" where
  "outputs_of self kwargs = found_values (map (out_value self kwargs) (out_entries self))"

text \<open>The dictionary \<open>arguments\<close>: the resolved values, stored under the entries' names.\<close>

fun store_values :: "(str \<times> 'v found) list \<Rightarrow> (str \<times> 'v) list \<Rightarrow> (str \<times> 'v) list" where
  "store_values [] arguments = arguments"
| "store_values ((name, Value v) # rs) arguments = store_values rs (AList.update name v arguments)"
| "store_values ((name, ValueNotFound ms) # rs) arguments = store_values rs arguments"

definition arguments_of :: "'v ActionCommand \<Rightarrow> 'v kwargs \<Rightarrow> (str \<times> 'v) list" where
  "arguments_of self kwargs =
     store_values (map (\<lambda>item. (item_name item, in_value self kwargs item)) (in_entries self)) []"

text \<open>The calls of the generated handlers, one for each entry, inputs and parameters first.\<close>

definition resolutions :: "'v ActionCommand \<Rightarrow> 'v event list" where
  "resolutions self =
     map (\<lambda>item. Resolve (item_name item)) (in_entries self) @
     map (\<lambda>item. Resolve (item_name item)) (out_entries self)"

text \<open>"Each provider is tried in a fixed order and the first success wins."\<close>

fun first_success :: "'a option list \<Rightarrow> 'a option" where
  "first_success [] = None"
| "first_success (Some v # providers) = Some v"
| "first_success (None # providers) = first_success providers"

section \<open>An example action\<close>

text \<open>
  An action with the signature \<open>a: input, b: parameter, c: output\<close>, with handlers that
  resolve as section 4.4 of the spec describes, a command-config provider that, when
  \<open>--cmd-config\<close> is given, supplies \<open>b\<close> and \<open>output_dir\<close> (and \<open>c\<close> too for the
  file \<open>with-c.cfg\<close>), and an engine that returns one result, or fails when \<open>b\<close> is
  \<open>0\<close>.
\<close>

definition example_signature :: "item list" where
  "example_signature =
     [\<lparr>item_type = Input, item_name = lit ''a'', ast_type = lit ''expression'', item_rest = []\<rparr>,
      \<lparr>item_type = Parameter, item_name = lit ''b'', ast_type = lit ''expression'', item_rest = []\<rparr>,
      \<lparr>item_type = Output, item_name = lit ''c'', ast_type = lit ''expression'', item_rest = []\<rparr>]"

definition example_action :: action where
  "example_action =
     \<lparr>action_id = lit ''do_it'', action_name = lit ''Do it'',
      action_description = lit ''An example.'', signature = example_signature\<rparr>"

text \<open>A second action of the same plugin, with two outputs: \<open>t: input, u: output, v: output\<close>.\<close>

definition example_split_signature :: "item list" where
  "example_split_signature =
     [\<lparr>item_type = Input, item_name = lit ''t'', ast_type = lit ''expression'', item_rest = []\<rparr>,
      \<lparr>item_type = Output, item_name = lit ''u'', ast_type = lit ''expression'', item_rest = []\<rparr>,
      \<lparr>item_type = Output, item_name = lit ''v'', ast_type = lit ''expression'', item_rest = []\<rparr>]"

definition example_split_action :: action where
  "example_split_action =
     \<lparr>action_id = lit ''split_it'', action_name = lit ''Split it'',
      action_description = lit ''Another example.'', signature = example_split_signature\<rparr>"

definition example_plugin :: plugin where
  "example_plugin =
     \<lparr>plugin_name = lit ''demo'', version = lit ''1.0'', website = lit ''https://example.org'',
      description = lit ''A plugin.'', short_description = lit ''Plugin.'',
      user_support_text = lit ''Ask.'',
      actions = [(lit ''do_it'', example_action), (lit ''split_it'', example_split_action)]\<rparr>"

definition example_handler :: "item \<Rightarrow> str handler" where
  "example_handler item = spec_ResultHandler (item_name item) [item_name item]"

definition example_flag :: "str \<Rightarrow> (str kwargs \<Rightarrow> str fallback \<Rightarrow> bool) meta_handler" where
  "example_flag name =
     \<lparr>meta_get_value =
        (\<lambda>kwargs fb. case kwargs name of Some v \<Rightarrow> True | None \<Rightarrow> fb [name] \<noteq> None),
      meta_click_options = [Option name]\<rparr>"

definition example_config :: "str \<Rightarrow> str \<Rightarrow> (str kwargs \<Rightarrow> str fallback) meta_handler" where
  "example_config plugin_cli action_cli =
     \<lparr>meta_get_value =
        (\<lambda>kwargs. case kwargs (lit ''cmd_config'') of
           None \<Rightarrow> (\<lambda>args. None)
         | Some file \<Rightarrow>
             (\<lambda>args. if args = [lit ''b''] then Some (lit ''7'')
                      else if args = [lit ''output_dir''] then Some (lit ''out'')
                      else if args = [lit ''c''] \<and> file = lit ''with-c.cfg''
                      then Some (lit ''cfg.qza'')
                      else None)),
      meta_click_options = [Option (lit ''cmd_config'')]\<rparr>"

definition example_q2cli :: "str q2cli" where
  "example_q2cli =
     \<lparr>to_cli_name = map (\<lambda>c. if c = 95 then 45 else c),
      citations_option = CitationsOption,
      ArtifactHandler = example_handler,
      parameter_handler_factory = example_handler,
      ResultHandler = example_handler,
      CollectionHandler = (\<lambda>inner item. inner),
      VerboseHandler = example_flag (lit ''verbose''),
      QuietHandler = example_flag (lit ''quiet''),
      OutputDirHandler =
        spec_OutputDirHandler (\<lambda>dir args. dir @ [47] @ concat args) (lit ''output_dir'')
          [lit ''output_dir''],
      CommandConfigHandler = example_config\<rparr>"

definition example_command :: "str ActionCommand" where
  "example_command = ActionCommand_init example_q2cli (lit ''do-it'') example_plugin example_action"

definition example_result :: "str result" where
  "example_result = \<lparr>result_type = lit ''Table'', save = (\<lambda>output. output @ lit ''.qza'')\<rparr>"

definition example_env :: "str env" where
  "example_env =
     \<lparr>parent_get_help = lit ''Usage: qiime demo do-it [OPTIONS]'',
      log_name = lit ''/tmp/qiime2-q2cli-err-x.log'',
      path_exists = (\<lambda>path. True),
      run_action = (\<lambda>arguments. if map_of arguments (lit ''b'') = Some (lit ''0'')
                                 then Inl (lit ''division by zero'')
                                 else Inr [example_result])\<rparr>"

definition example_split_command :: "str ActionCommand" where
  "example_split_command =
     ActionCommand_init example_q2cli (lit ''split-it'') example_plugin example_split_action"

definition example_left :: "str result" where
  "example_left = \<lparr>result_type = lit ''Left'', save = (\<lambda>output. output @ lit ''.qza'')\<rparr>"

definition example_right :: "str result" where
  "example_right = \<lparr>result_type = lit ''Right'', save = (\<lambda>output. output @ lit ''.qzv'')\<rparr>"

definition example_split_env :: "str env" where
  "example_split_env =
     \<lparr>parent_get_help = lit ''Usage: qiime demo split-it [OPTIONS]'',
      log_name = lit ''/tmp/qiime2-q2cli-err-y.log'',
      path_exists = (\<lambda>path. True),
      run_action = (\<lambda>arguments. Inr [example_left, example_right])\<rparr>"

text \<open>Parsed flag values: a dictionary from a list of pairs.\<close>

definition flags :: "(str \<times> str) list \<Rightarrow> str kwargs" where
  "flags pairs = map_of pairs"

text \<open>
  \<open>legacy tok field\<close>: the whole token is \<open>--m-<field>-category\<close>, with a field that is
  not empty and has no whitespace in it.
\<close>

definition legacy :: "str \<Rightarrow> str \<Rightarrow> bool" where
  "legacy tok field \<longleftrightarrow>
     field \<noteq> [] \<and> (\<forall>c \<in> set field. \<not> py_isspace c) \<and>
     tok = lit ''--m-'' @ field @ lit ''-category''"

section \<open>The checks of \<open>RootCommand.__init__\<close> on the raw arguments\<close>

lemma str_in_single: "str_in [c] s \<longleftrightarrow> c \<in> set s"
  by (induction s) auto

lemma length_lit: "length (lit l) = length l"
  by (simp add: lit_def)

lemma fullmatch_literal_app:
  "fullmatch (literal l @ r) s =
     (if prefix (lit l) s then fullmatch r (drop (length l) s) else None)"
proof (induction l arbitrary: s)
  case Nil
  then show ?case by (simp add: literal_def lit_def)
next
  case (Cons a l)
  have IH: "\<And>s. fullmatch (literal l @ r) s =
     (if prefix (lit l) s then fullmatch r (drop (length l) s) else None)"
    using Cons.IH by simp
  show ?case
  proof (cases s)
    case Nil
    then show ?thesis by (simp add: literal_def lit_def)
  next
    case (Cons c cs)
    have "literal (a # l) @ r = One (Chr (of_char a)) # (literal l @ r)"
      by (simp add: literal_def)
    then show ?thesis using IH[of cs] Cons by (auto simp: lit_def)
  qed
qed

lemma fullmatch_literal:
  "fullmatch (literal l) s = (if s = lit l then Some [] else None)"
proof -
  have "fullmatch (literal l @ []) s =
     (if prefix (lit l) s then fullmatch [] (drop (length l) s) else None)"
    by (rule fullmatch_literal_app)
  moreover have "prefix (lit l) s \<and> drop (length l) s = [] \<longleftrightarrow> s = lit l"
    by (auto simp: prefix_def length_lit)
  ultimately show ?thesis by auto
qed

lemma give_back_literal:
  assumes "l \<noteq> []"
  shows "give_back (literal l) s k =
     (if 1 \<le> length s - length l \<and> length s - length l \<le> k \<and> drop (length s - length l) s = lit l
      then Some [take (length s - length l) s] else None)"
proof (induction k)
  case 0
  then show ?case by simp
next
  case (Suc k)
  define j where "j = length s - length l"
  have eq: "Suc k = j" if "drop (Suc k) s = lit l"
  proof -
    from that have "length (drop (Suc k) s) = length l" by (simp add: length_lit)
    then show ?thesis using assms by (cases l) (auto simp: j_def)
  qed
  show ?case
  proof (cases "drop (Suc k) s = lit l")
    case True
    have "give_back (literal l) s (Suc k) = Some [take (Suc k) s]"
      using True by (simp add: fullmatch_literal)
    moreover have "Suc k = j" using True by (rule eq)
    ultimately show ?thesis using True unfolding j_def[symmetric] by auto
  next
    case False
    then have "give_back (literal l) s (Suc k) = give_back (literal l) s k"
      by (simp add: fullmatch_literal)
    moreover have "\<not> (j = Suc k \<and> drop j s = lit l)" using False by auto
    ultimately show ?thesis using Suc unfolding j_def[symmetric] by (auto simp: le_Suc_eq)
  qed
qed

lemma le_length_takeWhile:
  "j \<le> length (takeWhile P s) \<longleftrightarrow> j \<le> length s \<and> (\<forall>c \<in> set (take j s). P c)"
proof (induction s arbitrary: j)
  case Nil
  then show ?case by simp
next
  case (Cons a s)
  then show ?case by (cases j) auto
qed

lemma fullmatch_lit_group_lit:
  assumes "q \<noteq> []"
  shows "fullmatch (literal p @ [PlusGroup a] @ literal q) s = Some gs \<longleftrightarrow>
     (\<exists>f. f \<noteq> [] \<and> (\<forall>c \<in> set f. cls_ok a c) \<and> s = lit p @ f @ lit q \<and> gs = [f])"
proof
  assume m: "fullmatch (literal p @ [PlusGroup a] @ literal q) s = Some gs"
  define s' where "s' = drop (length p) s"
  define j where "j = length s' - length q"
  from m have pre: "prefix (lit p) s"
    and g: "fullmatch (PlusGroup a # literal q) s' = Some gs"
    by (auto simp: fullmatch_literal_app s'_def split: if_splits)
  from g have gb: "give_back (literal q) s' (length (takeWhile (cls_ok a) s')) = Some gs"
    by (auto split: option.splits list.splits)
  then have c: "1 \<le> j" "j \<le> length (takeWhile (cls_ok a) s')" "drop j s' = lit q" "gs = [take j s']"
    unfolding give_back_literal[OF assms] j_def by (auto split: if_splits)
  from c(2) have "j \<le> length s'" "\<forall>c \<in> set (take j s'). cls_ok a c"
    by (simp_all add: le_length_takeWhile)
  moreover have "s = lit p @ s'" using pre by (auto simp: prefix_def s'_def length_lit)
  moreover have "s' = take j s' @ lit q" using c(3) append_take_drop_id[of j s'] by simp
  moreover have "take j s' \<noteq> []" using c(1) \<open>j \<le> length s'\<close> by auto
  ultimately show "\<exists>f. f \<noteq> [] \<and> (\<forall>c \<in> set f. cls_ok a c) \<and> s = lit p @ f @ lit q \<and> gs = [f]"
    using c(4) by metis
next
  assume "\<exists>f. f \<noteq> [] \<and> (\<forall>c \<in> set f. cls_ok a c) \<and> s = lit p @ f @ lit q \<and> gs = [f]"
  then obtain f where f: "f \<noteq> []" "\<forall>c \<in> set f. cls_ok a c" "s = lit p @ f @ lit q" "gs = [f]"
    by blast
  have 1: "fullmatch (literal p @ [PlusGroup a] @ literal q) s = fullmatch (PlusGroup a # literal q) (f @ lit q)"
    by (simp add: fullmatch_literal_app f(3) length_lit)
  have j: "length (f @ lit q) - length q = length f" by (simp add: length_lit)
  have "length f \<le> length (takeWhile (cls_ok a) (f @ lit q))"
    using f(2) by (simp add: le_length_takeWhile)
  then have "give_back (literal q) (f @ lit q) (length (takeWhile (cls_ok a) (f @ lit q))) = Some [f]"
    unfolding give_back_literal[OF assms] j using f(1) by (cases f) auto
  then show "fullmatch (literal p @ [PlusGroup a] @ literal q) s = Some gs"
    unfolding 1 using f(4) by simp
qed

lemma fullmatch_category_regex:
  "fullmatch category_regex tok = Some gs \<longleftrightarrow>
     (\<exists>f. f \<noteq> [] \<and> (\<forall>c \<in> set f. \<not> py_isspace c) \<and> tok = lit ''--m-'' @ f @ lit ''-category'' \<and> gs = [f])"
proof -
  have ne: "''-category'' \<noteq> []" by simp
  show ?thesis unfolding category_regex_def fullmatch_lit_group_lit[OF ne] by simp
qed

lemma renaming_legacy:
  "renaming tok = [(tok, lit ''--m-'' @ f @ lit ''-column'')]" if "legacy tok f"
proof -
  from that have "fullmatch category_regex tok = Some [f]"
    unfolding fullmatch_category_regex legacy_def by blast
  then show ?thesis by (simp add: renaming_def)
qed

lemma renaming_cases:
  "renaming tok = [] \<and> fullmatch category_regex tok = None \<or> (\<exists>f. legacy tok f \<and> renaming tok = [(tok, lit ''--m-'' @ f @ lit ''-column'')])"
proof (cases "fullmatch category_regex tok")
  case None
  then show ?thesis by (simp add: renaming_def)
next
  case (Some gs)
  then obtain f where "legacy tok f" unfolding fullmatch_category_regex legacy_def by blast
  then show ?thesis using renaming_legacy by blast
qed

lemma scan_argv_eq:
  "scan_argv argv invalid_chars categories =
     (invalid_chars @ filter has_invalid_char argv, categories @ concat (map renaming argv))"
proof (induction argv arbitrary: invalid_chars categories)
  case Nil
  then show ?case by simp
next
  case (Cons command argv)
  have "(case fullmatch category_regex command of
               Some [param_name] \<Rightarrow>
                 categories @ [(command, lit ''--m-'' @ param_name @ lit ''-column'')]
             | _ \<Rightarrow> categories) = categories @ renaming command"
    by (simp add: renaming_def split: option.splits list.splits)
  then show ?case using Cons by (simp add: Let_def)
qed

lemma has_invalid_char_iff:
  "has_invalid_char tok \<longleftrightarrow> (\<exists>c \<in> set tok. c \<in> {0x2018, 0x2019, 0x201C, 0x201D, 0x2014})"
  by (auto simp: has_invalid_char_def unicodes_def str_in_single)

lemma str_in_prefix: "prefix x s \<Longrightarrow> str_in x s"
  by (cases s) auto

lemma str_in_appendI: "str_in x (a @ x @ b)"
  by (induction a) (auto simp: str_in_prefix)

lemma str_in_mono: "str_in x s \<Longrightarrow> str_in x (a @ s @ b)"
proof -
  have 1: "str_in x s \<Longrightarrow> \<exists>u v. s = u @ x @ v" for s
  proof (induction s)
    case Nil then show ?case by simp
  next
    case (Cons c cs)
    then show ?case
    proof (cases "prefix x (c # cs)")
      case True
      then obtain v where "c # cs = x @ v" by (auto simp: prefix_def)
      then have "c # cs = [] @ x @ v" by simp
      then show ?thesis by blast
    next
      case False
      with Cons obtain u v where "cs = u @ x @ v" by auto
      then have "c # cs = (c # u) @ x @ v" by simp
      then show ?thesis by blast
    qed
  qed
  assume "str_in x s"
  then obtain u v where "s = u @ x @ v" using 1 by blast
  then have "a @ s @ b = (a @ u) @ x @ (v @ b)" by simp
  then show ?thesis using str_in_appendI by metis
qed

lemma str_in_join: "x \<in> set xs \<Longrightarrow> str_in x (join sep xs)"
proof (induction sep xs rule: join.induct)
  case (1 sep)
  then show ?case by simp
next
  case (2 sep y)
  then show ?case using str_in_appendI[of x "[]" "[]"] by simp
next
  case (3 sep y z zs)
  show ?case
  proof (cases "x = y")
    case True
    then show ?thesis using str_in_appendI[of y "[]"] by simp
  next
    case False
    with 3 have "str_in x (join sep (z # zs))" by simp
    then show ?thesis using str_in_mono[of x _ "y @ sep" "[]"] by simp
  qed
qed

lemma RootCommand_init_eq:
  "RootCommand_init argv =
     (let invalid_chars = filter has_invalid_char argv; categories = concat (map renaming argv)
      in if invalid_chars \<noteq> [] \<or> categories \<noteq> [] then
           ((if invalid_chars \<noteq> []
             then [Secho (invalid_chars_msg invalid_chars) True ''red'' True] else []) @
            (if categories \<noteq> []
             then [Secho (categories_msg categories) True ''red'' True] else []),
            Exit (- 1))
         else ([], Return \<lparr>plugins_snapshot = None\<rparr>))"
  by (simp add: RootCommand_init_def scan_argv_eq Let_def)

lemma in_set_nonempty: "x \<in> set xs \<Longrightarrow> xs \<noteq> []"
  by (cases xs) simp_all

lemma invalid_reported:
  assumes "tok \<in> set argv" "has_invalid_char tok"
  shows "snd (RootCommand_init argv) = Exit (- 1) \<and>
         (\<exists>m. Secho m True ''red'' True \<in> set (fst (RootCommand_init argv)) \<and> str_in tok m)"
proof -
  define inv where "inv = filter has_invalid_char argv"
  define cats where "cats = concat (map renaming argv)"
  have in_inv: "tok \<in> set inv" using assms by (simp add: inv_def)
  then have ne: "inv \<noteq> []" by (rule in_set_nonempty)
  have "str_in tok (join (lit '', '') inv)" using in_inv by (rule str_in_join)
  then have s: "str_in tok (invalid_chars_msg inv)"
    unfolding invalid_chars_msg_def by (rule str_in_mono)
  have eq: "RootCommand_init argv =
      ([Secho (invalid_chars_msg inv) True ''red'' True] @
       (if cats \<noteq> [] then [Secho (categories_msg cats) True ''red'' True] else []), Exit (- 1))"
    using ne unfolding RootCommand_init_eq inv_def[symmetric] cats_def[symmetric] Let_def by simp
  have "Secho (invalid_chars_msg inv) True ''red'' True \<in> set (fst (RootCommand_init argv))"
    unfolding eq by simp
  moreover have "snd (RootCommand_init argv) = Exit (- 1)"
    unfolding eq by simp
  ultimately show ?thesis using s by blast
qed

lemma legacy_reported:
  assumes "tok \<in> set argv" "legacy tok f"
  shows "snd (RootCommand_init argv) = Exit (- 1) \<and>
         (\<exists>m. Secho m True ''red'' True \<in> set (fst (RootCommand_init argv)) \<and>
              str_in (lit ''Instead of '' @ tok @ lit '', trying using '' @ lit ''--m-'' @ f @ lit ''-column'') m)"
proof -
  define inv where "inv = filter has_invalid_char argv"
  define cats where "cats = concat (map renaming argv)"
  define new where "new = lit ''--m-'' @ f @ lit ''-column''"
  define fmt :: "str \<times> str \<Rightarrow> str"
    where "fmt = (\<lambda>(old, new). lit ''Instead of '' @ old @ lit '', trying using '' @ new)"
  have "(tok, new) \<in> set (renaming tok)"
    unfolding renaming_legacy[OF assms(2)] new_def by simp
  with assms(1) have in_cats: "(tok, new) \<in> set cats"
    unfolding cats_def set_concat set_map by blast
  then have ne: "cats \<noteq> []" by (rule in_set_nonempty)
  from in_cats have "fmt (tok, new) \<in> set (map fmt cats)"
    unfolding set_map by (rule imageI)
  then have "str_in (fmt (tok, new)) (join [10] (map fmt cats))" by (rule str_in_join)
  then have "str_in (fmt (tok, new)) (old_to_new_names cats)"
    unfolding old_to_new_names_def fmt_def .
  then have "str_in (fmt (tok, new)) (categories_msg cats)"
    unfolding categories_msg_def using str_in_mono[where b = "[]"] by simp
  then have s: "str_in (lit ''Instead of '' @ tok @ lit '', trying using '' @ lit ''--m-'' @ f @ lit ''-column'') (categories_msg cats)"
    unfolding fmt_def new_def by simp
  have eq: "RootCommand_init argv =
      ((if inv \<noteq> [] then [Secho (invalid_chars_msg inv) True ''red'' True] else []) @
       [Secho (categories_msg cats) True ''red'' True], Exit (- 1))"
    using ne unfolding RootCommand_init_eq inv_def[symmetric] cats_def[symmetric] Let_def by simp
  have "Secho (categories_msg cats) True ''red'' True \<in> set (fst (RootCommand_init argv))"
    unfolding eq by simp
  moreover have "snd (RootCommand_init argv) = Exit (- 1)"
    unfolding eq by simp
  ultimately show ?thesis using s by blast
qed

text \<open>
  Claim C3. Whenever the raw argument vector holds a token with one of the disallowed
  characters (the smart quotes U+2018, U+2019, U+201C, U+201D or the em-dash U+2014) or a
  token of the legacy form \<open>--m-<field>-category\<close>, \<open>RootCommand.__init__\<close> ends the
  process with \<open>sys.exit(-1)\<close> and never reaches \<open>super().__init__\<close>, where click's own
  work starts. All it does before is print messages in bold red on the error stream, and
  among them every token with a disallowed character is named, and for every legacy token
  the line \<open>Instead of <token>, trying using --m-<field>-column\<close> is printed.
\<close>

theorem RootCommand_init_reports_every_offending_token:
  assumes "\<exists>tok \<in> set argv.
             (\<exists>c \<in> set tok. c \<in> {0x2018, 0x2019, 0x201C, 0x201D, 0x2014}) \<or>
             (\<exists>field. field \<noteq> [] \<and> (\<forall>c \<in> set field. \<not> py_isspace c) \<and>
                      tok = lit ''--m-'' @ field @ lit ''-category'')"
  shows "snd (RootCommand_init argv) = Exit (- 1) \<and>
         (\<forall>e \<in> set (fst (RootCommand_init argv)). \<exists>m. e = Secho m True ''red'' True) \<and>
         (\<forall>tok \<in> set argv.
            (\<exists>c \<in> set tok. c \<in> {0x2018, 0x2019, 0x201C, 0x201D, 0x2014}) \<longrightarrow>
            (\<exists>m. Secho m True ''red'' True \<in> set (fst (RootCommand_init argv)) \<and> str_in tok m)) \<and>
         (\<forall>tok \<in> set argv. \<forall>field.
            field \<noteq> [] \<and> (\<forall>c \<in> set field. \<not> py_isspace c) \<and>
            tok = lit ''--m-'' @ field @ lit ''-category'' \<longrightarrow>
            (\<exists>m. Secho m True ''red'' True \<in> set (fst (RootCommand_init argv)) \<and>
                 str_in (lit ''Instead of '' @ tok @ lit '', trying using '' @
                         lit ''--m-'' @ field @ lit ''-column'') m))"
proof (intro conjI ballI allI impI)
  from assms obtain tok where tok: "tok \<in> set argv"
    and d: "has_invalid_char tok \<or> (\<exists>field. legacy tok field)"
    unfolding has_invalid_char_iff legacy_def by blast
  from d show "snd (RootCommand_init argv) = Exit (- 1)"
  proof
    assume "has_invalid_char tok"
    with tok show ?thesis using invalid_reported by blast
  next
    assume "\<exists>field. legacy tok field"
    then obtain field where "legacy tok field" ..
    with tok show ?thesis using legacy_reported by blast
  qed
next
  fix e assume "e \<in> set (fst (RootCommand_init argv))"
  then show "\<exists>m. e = Secho m True ''red'' True"
    unfolding RootCommand_init_eq Let_def by (simp split: if_splits) blast
next
  fix tok assume "tok \<in> set argv" "\<exists>c \<in> set tok. c \<in> {0x2018, 0x2019, 0x201C, 0x201D, 0x2014}"
  then have "tok \<in> set argv" "has_invalid_char tok" unfolding has_invalid_char_iff by simp_all
  then show "\<exists>m. Secho m True ''red'' True \<in> set (fst (RootCommand_init argv)) \<and> str_in tok m"
    by (rule invalid_reported[THEN conjunct2])
next
  fix tok field assume "tok \<in> set argv"
    "field \<noteq> [] \<and> (\<forall>c \<in> set field. \<not> py_isspace c) \<and> tok = lit ''--m-'' @ field @ lit ''-category''"
  then have "tok \<in> set argv" "legacy tok field" unfolding legacy_def by simp_all
  then show "\<exists>m. Secho m True ''red'' True \<in> set (fst (RootCommand_init argv)) \<and>
                 str_in (lit ''Instead of '' @ tok @ lit '', trying using '' @
                         lit ''--m-'' @ field @ lit ''-column'') m"
    by (rule legacy_reported[THEN conjunct2])
qed

theorem RootCommand_init_reports_witness:
  "snd (RootCommand_init [lit ''qiime'', [0x201C] @ lit ''x'', lit ''--m-foo-category'']) = Exit (- 1) \<and>
   (\<exists>m. Secho m True ''red'' True \<in> set (fst (RootCommand_init [lit ''qiime'', [0x201C] @ lit ''x'', lit ''--m-foo-category''])) \<and>
        str_in ([0x201C] @ lit ''x'') m) \<and>
   (\<exists>m. Secho m True ''red'' True \<in> set (fst (RootCommand_init [lit ''qiime'', [0x201C] @ lit ''x'', lit ''--m-foo-category''])) \<and>
        str_in (lit ''Instead of '' @ lit ''--m-foo-category'' @ lit '', trying using '' @
                lit ''--m-'' @ lit ''foo'' @ lit ''-column'') m)"
proof -
  let ?argv = "[lit ''qiime'', [0x201C] @ lit ''x'', lit ''--m-foo-category'']"
  have f: "lit ''foo'' \<noteq> [] \<and> (\<forall>c \<in> set (lit ''foo''). \<not> py_isspace c) \<and>
        lit ''--m-foo-category'' = lit ''--m-'' @ lit ''foo'' @ lit ''-category''"
    by (simp add: lit_def py_isspace_def)
  have b: "\<exists>c \<in> set ([0x201C] @ lit ''x''). c \<in> {0x2018, 0x2019, 0x201C, 0x201D, 0x2014::nat}"
    by simp
  have m1: "[0x201C] @ lit ''x'' \<in> set ?argv" by simp
  have m2: "lit ''--m-foo-category'' \<in> set ?argv" by simp
  have h: "\<exists>tok \<in> set ?argv.
             (\<exists>c \<in> set tok. c \<in> {0x2018, 0x2019, 0x201C, 0x201D, 0x2014}) \<or>
             (\<exists>field. field \<noteq> [] \<and> (\<forall>c \<in> set field. \<not> py_isspace c) \<and>
                      tok = lit ''--m-'' @ field @ lit ''-category'')"
    using m1 b by (intro bexI[of _ "[0x201C] @ lit ''x''"] disjI1)
  note t = RootCommand_init_reports_every_offending_token[OF h]
  note t1 = t[THEN conjunct1]
  note t3 = t[THEN conjunct2, THEN conjunct2, THEN conjunct1, THEN bspec, OF m1, THEN mp, OF b]
  note t4 = t[THEN conjunct2, THEN conjunct2, THEN conjunct2, THEN bspec, OF m2, THEN spec, THEN mp, OF f]
  from t1 t3 t4 show ?thesis by (intro conjI)
qed

lemma in_categories_iff:
  "(tok, new) \<in> set (snd (scan_argv argv [] [])) \<longleftrightarrow>
     tok \<in> set argv \<and> (\<exists>field. legacy tok field \<and> new = lit ''--m-'' @ field @ lit ''-column'')"
proof
  assume "(tok, new) \<in> set (snd (scan_argv argv [] []))"
  then obtain t where t: "t \<in> set argv" "(tok, new) \<in> set (renaming t)"
    unfolding scan_argv_eq by auto
  from renaming_cases[of t] t(2) obtain f where "legacy t f" "renaming t = [(t, lit ''--m-'' @ f @ lit ''-column'')]"
    by auto
  with t show "tok \<in> set argv \<and> (\<exists>field. legacy tok field \<and> new = lit ''--m-'' @ field @ lit ''-column'')"
    by auto
next
  assume "tok \<in> set argv \<and> (\<exists>field. legacy tok field \<and> new = lit ''--m-'' @ field @ lit ''-column'')"
  then obtain f where f: "tok \<in> set argv" "legacy tok f" "new = lit ''--m-'' @ f @ lit ''-column''" by blast
  have "(tok, new) \<in> set (renaming tok)" unfolding renaming_legacy[OF f(2)] f(3) by simp
  with f(1) show "(tok, new) \<in> set (snd (scan_argv argv [] []))"
    unfolding scan_argv_eq snd_conv append_Nil set_concat set_map by blast
qed

lemma eq_not_in_category: "61 \<notin> set (lit ''-category'')"
  by (simp add: lit_def)

lemma suffix_attached:
  assumes "suffix (lit ''-category'') (p @ lit ''-category='' @ v)"
  shows "suffix (lit ''-category'') v"
proof -
  have e: "p @ lit ''-category='' @ v = (p @ lit ''-category'') @ [61] @ v"
    by (simp add: lit_def)
  from assms have "suffix (lit ''-category'') (((p @ lit ''-category'') @ [61]) @ v)"
    unfolding e by simp
  then consider "suffix (lit ''-category'') v"
    | xs where "lit ''-category'' = xs @ v" "suffix xs ((p @ lit ''-category'') @ [61])"
    unfolding suffix_append by blast
  then show ?thesis
  proof cases
    case 1 then show ?thesis .
  next
    case 2
    show ?thesis
    proof (cases "xs = []")
      case True
      with 2(1) show ?thesis by simp
    next
      case False
      with 2(2) have "last xs = 61" unfolding suffix_def by (metis last_appendR last_snoc)
      with False have "61 \<in> set xs" using last_in_set by metis
      then have "61 \<in> set (lit ''-category'')" unfolding 2(1) by simp
      with eq_not_in_category show ?thesis by contradiction
    qed
  qed
qed

lemma attached_not_legacy:
  assumes "\<not> suffix (lit ''-category'') v"
  shows "fullmatch category_regex (lit ''--m-'' @ field @ lit ''-category='' @ v) = None"
proof (cases "fullmatch category_regex (lit ''--m-'' @ field @ lit ''-category='' @ v)")
  case None then show ?thesis .
next
  case (Some gs)
  then obtain f where "lit ''--m-'' @ field @ lit ''-category='' @ v = lit ''--m-'' @ f @ lit ''-category''"
    unfolding fullmatch_category_regex by blast
  then have "suffix (lit ''-category'') ((lit ''--m-'' @ field) @ lit ''-category='' @ v)"
    unfolding suffix_def by (metis append.assoc)
  then have "suffix (lit ''-category'') v" by (rule suffix_attached)
  with assms show ?thesis by contradiction
qed

lemma fullmatch_None_iff:
  "fullmatch category_regex tok = None \<longleftrightarrow> \<not> (\<exists>field. legacy tok field)"
proof -
  have "fullmatch category_regex tok \<noteq> None \<longleftrightarrow> (\<exists>gs. fullmatch category_regex tok = Some gs)" by auto
  also have "\<dots> \<longleftrightarrow> (\<exists>field. legacy tok field)"
    unfolding fullmatch_category_regex legacy_def by blast
  finally show ?thesis by blast
qed

lemma no_offender_returns:
  assumes "\<forall>tok \<in> set argv. \<not> has_invalid_char tok \<and> fullmatch category_regex tok = None"
  shows "RootCommand_init argv = ([], Return \<lparr>plugins_snapshot = None\<rparr>)"
proof -
  have 1: "filter has_invalid_char argv = []" using assms by (simp add: filter_empty_conv)
  have "\<forall>tok \<in> set argv. renaming tok = []" using assms by (simp add: renaming_def)
  then have 2: "concat (map renaming argv) = []" by simp
  show ?thesis unfolding RootCommand_init_eq 1 2 Let_def by simp
qed

text \<open>
  What the legacy check matches. A token is recorded in \<open>categories\<close> (and so triggers
  the migration error) exactly when the entire token is \<open>--m-<field>-category\<close> with a
  field that is not empty and free of whitespace. A token \<open>--m-<field>-category=<value>\<close>
  whose value does not end in \<open>-category\<close> is not matched and not recorded, and an
  argument vector none of whose tokens is matched or has a disallowed character lets
  construction go on without any output.
\<close>

theorem legacy_check_matches_whole_tokens:
  "((\<exists>new. (tok, new) \<in> set (snd (scan_argv argv [] []))) \<longleftrightarrow>
      tok \<in> set argv \<and>
      (\<exists>field. field \<noteq> [] \<and> (\<forall>c \<in> set field. \<not> py_isspace c) \<and>
               tok = lit ''--m-'' @ field @ lit ''-category'')) \<and>
   (\<not> suffix (lit ''-category'') v \<longrightarrow>
      fullmatch category_regex (lit ''--m-'' @ field' @ lit ''-category='' @ v) = None \<and>
      (\<forall>new. (lit ''--m-'' @ field' @ lit ''-category='' @ v, new) \<notin> set (snd (scan_argv argv [] [])))) \<and>
   ((\<forall>t \<in> set argv. \<not> has_invalid_char t \<and> fullmatch category_regex t = None) \<longrightarrow>
      RootCommand_init argv = ([], Return \<lparr>plugins_snapshot = None\<rparr>))"
proof (intro conjI impI allI)
  show "(\<exists>new. (tok, new) \<in> set (snd (scan_argv argv [] []))) \<longleftrightarrow>
      tok \<in> set argv \<and>
      (\<exists>field. field \<noteq> [] \<and> (\<forall>c \<in> set field. \<not> py_isspace c) \<and>
               tok = lit ''--m-'' @ field @ lit ''-category'')"
    unfolding in_categories_iff legacy_def[symmetric] by blast
next
  assume "\<not> suffix (lit ''-category'') v"
  then show "fullmatch category_regex (lit ''--m-'' @ field' @ lit ''-category='' @ v) = None"
    by (rule attached_not_legacy)
next
  fix new
  assume "\<not> suffix (lit ''-category'') v"
  then have "fullmatch category_regex (lit ''--m-'' @ field' @ lit ''-category='' @ v) = None"
    by (rule attached_not_legacy)
  then show "(lit ''--m-'' @ field' @ lit ''-category='' @ v, new) \<notin> set (snd (scan_argv argv [] []))"
    unfolding in_categories_iff fullmatch_None_iff by blast
next
  assume "\<forall>t \<in> set argv. \<not> has_invalid_char t \<and> fullmatch category_regex t = None"
  then show "RootCommand_init argv = ([], Return \<lparr>plugins_snapshot = None\<rparr>)"
    by (rule no_offender_returns)
qed

theorem legacy_check_witness:
  "(\<exists>new. (lit ''--m-foo-category'', new) \<in> set (snd (scan_argv [lit ''qiime'', lit ''--m-foo-category''] [] []))) \<and>
   fullmatch category_regex (lit ''--m-'' @ lit ''foo'' @ lit ''-category='' @ lit ''bar'') = None \<and>
   RootCommand_init [lit ''qiime'', lit ''--m-'' @ lit ''foo'' @ lit ''-category='' @ lit ''bar''] =
     ([], Return \<lparr>plugins_snapshot = None\<rparr>)"
proof -
  let ?tok = "lit ''--m-foo-category''"
  let ?att = "lit ''--m-'' @ lit ''foo'' @ lit ''-category='' @ lit ''bar''"
  have a: "?tok \<in> set [lit ''qiime'', ?tok] \<and>
      (\<exists>field. field \<noteq> [] \<and> (\<forall>c \<in> set field. \<not> py_isspace c) \<and>
               ?tok = lit ''--m-'' @ field @ lit ''-category'')"
    by (intro conjI exI[of _ "lit ''foo''"]) (simp_all add: lit_def py_isspace_def)
  have 1: "\<exists>new. (?tok, new) \<in> set (snd (scan_argv [lit ''qiime'', ?tok] [] []))"
    using legacy_check_matches_whole_tokens[of ?tok "[lit ''qiime'', ?tok]", THEN conjunct1] a
    by (rule iffD2)
  have ns: "\<not> suffix (lit ''-category'') (lit ''bar'')"
    by (simp add: lit_def suffix_def)
  have 2: "fullmatch category_regex ?att = None"
    using legacy_check_matches_whole_tokens[of _ _ "lit ''bar''" "lit ''foo''", THEN conjunct2, THEN conjunct1, THEN mp, OF ns]
    by (rule conjunct1)
  have q: "fullmatch category_regex (lit ''qiime'') = None"
    unfolding fullmatch_None_iff legacy_def by (simp add: lit_def)
  have i: "\<not> has_invalid_char (lit ''qiime'')" "\<not> has_invalid_char ?att"
    unfolding has_invalid_char_iff by (simp_all add: lit_def)
  have h: "\<forall>t \<in> set [lit ''qiime'', ?att]. \<not> has_invalid_char t \<and> fullmatch category_regex t = None"
    using q i 2 by simp
  have 3: "RootCommand_init [lit ''qiime'', ?att] = ([], Return \<lparr>plugins_snapshot = None\<rparr>)"
    using legacy_check_matches_whole_tokens[of _ "[lit ''qiime'', ?att]", THEN conjunct2, THEN conjunct2] h
    by (rule mp)
  from 1 2 3 show ?thesis by (intro conjI)
qed



section \<open>Resolution in \<open>ActionCommand.__call__\<close>\<close>

lemma in_params_loop_eq:
  assumes "list_all (\<lambda>item. map_of (generated_handlers self) (item_name item) \<noteq> None) items"
  shows "in_params_loop self (verbose_of self kwargs) kwargs (cmd_fallback_of self kwargs) items arguments missing =
     (map (\<lambda>item. Resolve (item_name item))
          (filter (\<lambda>item. item_type item = Input \<or> item_type item = Parameter) items),
      Return (store_values (map (\<lambda>item. (item_name item, in_value self kwargs item))
                 (filter (\<lambda>item. item_type item = Input \<or> item_type item = Parameter) items)) arguments,
              missing @ missing_names (map (in_value self kwargs)
                 (filter (\<lambda>item. item_type item = Input \<or> item_type item = Parameter) items))))"
  using assms
proof (induction items arbitrary: arguments missing)
  case Nil
  then show ?case by simp
next
  case (Cons item items)
  from Cons.prems obtain handler where h: "map_of (generated_handlers self) (item_name item) = Some handler"
    and rest: "list_all (\<lambda>item. map_of (generated_handlers self) (item_name item) \<noteq> None) items"
    by auto
  note IH = Cons.IH[OF rest]
  show ?case
  proof (cases "item_type item = Input \<or> item_type item = Parameter")
    case False
    then show ?thesis using IH by simp
  next
    case True
    have iv: "(if is_metadata handler
               then get_value handler (Some (verbose_of self kwargs)) kwargs (cmd_fallback_of self kwargs)
               else get_value handler None kwargs (cmd_fallback_of self kwargs)) = in_value self kwargs item"
      using h by (simp add: in_value_def)
    have step: "in_params_loop self (verbose_of self kwargs) kwargs (cmd_fallback_of self kwargs)
                  (item # items) arguments missing =
        bind ([Resolve (item_name item)], Return (in_value self kwargs item))
          (\<lambda>r. case r of
             Value v \<Rightarrow>
               in_params_loop self (verbose_of self kwargs) kwargs (cmd_fallback_of self kwargs) items
                 (AList.update (item_name item) v arguments) missing
           | ValueNotFound handler_missing \<Rightarrow>
               in_params_loop self (verbose_of self kwargs) kwargs (cmd_fallback_of self kwargs) items
                 arguments (missing @ handler_missing))"
      using True h by (simp only: in_params_loop.simps if_True option.case iv)
    show ?thesis
    proof (cases "in_value self kwargs item")
      case (Value v)
      then show ?thesis unfolding step using True IH by simp
    next
      case (ValueNotFound ms)
      then show ?thesis unfolding step using True IH by simp
    qed
  qed
qed

lemma out_params_loop_eq:
  assumes "list_all (\<lambda>item. map_of (generated_handlers self) (item_name item) \<noteq> None) items"
  shows "out_params_loop self kwargs (fallback (cmd_fallback_of self kwargs) (out_fallback_of self kwargs)) items outputs missing =
     (map (\<lambda>item. Resolve (item_name item)) (filter (\<lambda>item. item_type item = Output) items),
      Return (outputs @ found_values (map (out_value self kwargs) (filter (\<lambda>item. item_type item = Output) items)),
              missing @ missing_names (map (out_value self kwargs) (filter (\<lambda>item. item_type item = Output) items))))"
  using assms
proof (induction items arbitrary: outputs missing)
  case Nil
  then show ?case by simp
next
  case (Cons item items)
  from Cons.prems obtain handler where h: "map_of (generated_handlers self) (item_name item) = Some handler"
    and rest: "list_all (\<lambda>item. map_of (generated_handlers self) (item_name item) \<noteq> None) items"
    by auto
  note IH = Cons.IH[OF rest]
  show ?case
  proof (cases "item_type item = Output")
    case False
    then show ?thesis using IH by simp
  next
    case True
    have ov: "get_value handler None kwargs
                (fallback (cmd_fallback_of self kwargs) (out_fallback_of self kwargs)) =
              out_value self kwargs item"
      using h by (simp add: out_value_def)
    have step: "out_params_loop self kwargs
                  (fallback (cmd_fallback_of self kwargs) (out_fallback_of self kwargs))
                  (item # items) outputs missing =
        bind ([Resolve (item_name item)], Return (out_value self kwargs item))
          (\<lambda>r. case r of
             Value v \<Rightarrow>
               out_params_loop self kwargs
                 (fallback (cmd_fallback_of self kwargs) (out_fallback_of self kwargs)) items
                 (outputs @ [v]) missing
           | ValueNotFound handler_missing \<Rightarrow>
               out_params_loop self kwargs
                 (fallback (cmd_fallback_of self kwargs) (out_fallback_of self kwargs)) items
                 outputs (missing @ handler_missing))"
      using True h by (simp only: out_params_loop.simps if_True option.case ov simp_thms)
    show ?thesis
    proof (cases "out_value self kwargs item")
      case (Value v)
      then show ?thesis unfolding step using True IH by simp
    next
      case (ValueNotFound ms)
      then show ?thesis unfolding step using True IH by simp
    qed
  qed
qed

lemma handle_in_params_unfold:
  "handle_in_params self kwargs =
     (if verbose_of self kwargs \<and> quiet_of self kwargs then
        ([Print (Secho (lit ''Unsure of how to be quiet and verbose at the same time.'')
                  True ''red'' True)],
         Exit 1)
      else
        bind (in_params_loop self (verbose_of self kwargs) kwargs (cmd_fallback_of self kwargs)
                (signature (ac_action self)) [] [])
          (\<lambda>(arguments, missing).
             ([], Return (arguments, missing, verbose_of self kwargs, quiet_of self kwargs))))"
  by (simp add: handle_in_params_def verbose_of_def quiet_of_def cmd_fallback_of_def Let_def)

lemma handle_in_params_conflict:
  assumes "verbose_of self kwargs" "quiet_of self kwargs"
  shows "handle_in_params self kwargs =
     ([Print (Secho (lit ''Unsure of how to be quiet and verbose at the same time.'') True ''red'' True)],
      Exit 1)"
  unfolding handle_in_params_unfold using assms by simp

lemma handle_in_params_eq:
  assumes "has_handlers self" "\<not> (verbose_of self kwargs \<and> quiet_of self kwargs)"
  shows "handle_in_params self kwargs =
     (map (\<lambda>item. Resolve (item_name item)) (in_entries self),
      Return (arguments_of self kwargs, missing_in self kwargs,
              verbose_of self kwargs, quiet_of self kwargs))"
proof -
  have "handle_in_params self kwargs =
      bind (in_params_loop self (verbose_of self kwargs) kwargs (cmd_fallback_of self kwargs)
                   (signature (ac_action self)) [] [])
             (\<lambda>(arguments, missing). ([], Return (arguments, missing, verbose_of self kwargs, quiet_of self kwargs)))"
    unfolding handle_in_params_unfold using assms(2) by (simp only: if_False)
  also have "\<dots> = (map (\<lambda>item. Resolve (item_name item)) (in_entries self),
      Return (arguments_of self kwargs, missing_in self kwargs,
              verbose_of self kwargs, quiet_of self kwargs))"
    unfolding in_params_loop_eq[OF assms(1)[unfolded has_handlers_def]]
    by (simp add: in_entries_def arguments_of_def missing_in_def)
  finally show ?thesis .
qed

lemma handle_out_params_eq:
  assumes "has_handlers self"
  shows "handle_out_params self kwargs =
     (map (\<lambda>item. Resolve (item_name item)) (out_entries self),
      Return (outputs_of self kwargs, missing_out self kwargs))"
proof -
  have "handle_out_params self kwargs =
     out_params_loop self kwargs (fallback (cmd_fallback_of self kwargs) (out_fallback_of self kwargs))
           (signature (ac_action self)) [] []"
    by (simp add: handle_out_params_def out_fallback_of_def cmd_fallback_of_def Let_def)
  also have "\<dots> = (map (\<lambda>item. Resolve (item_name item)) (out_entries self),
      Return (outputs_of self kwargs, missing_out self kwargs))"
    unfolding out_params_loop_eq[OF assms(1)[unfolded has_handlers_def]]
    by (simp add: out_entries_def outputs_of_def missing_out_def)
  finally show ?thesis .
qed

lemma call_conflict:
  assumes "verbose_of self kwargs" "quiet_of self kwargs"
  shows "call q env self kwargs =
     ([Print (Secho (lit ''Unsure of how to be quiet and verbose at the same time.'') True ''red'' True)],
      Exit 1)"
  unfolding call_def handle_in_params_conflict[OF assms] by simp

lemma call_eq:
  assumes "has_handlers self" "\<not> (verbose_of self kwargs \<and> quiet_of self kwargs)"
  shows "call q env self kwargs =
     bind (resolutions self, Return ()) (\<lambda>u.
       if missing_in self kwargs \<noteq> [] \<or> missing_out self kwargs \<noteq> []
       then report_missing env (missing_in self kwargs) (missing_out self kwargs)
       else execute q env self (arguments_of self kwargs) (outputs_of self kwargs)
              (verbose_of self kwargs) (quiet_of self kwargs))"
  unfolding call_def handle_in_params_eq[OF assms] handle_out_params_eq[OF assms(1)] resolutions_def
  by (simp split: prod.splits)

lemma set_missing_names:
  "set (missing_names rs) = {n. \<exists>ms. ValueNotFound ms \<in> set rs \<and> n \<in> set ms}"
  by (induction rs rule: missing_names.induct) auto

lemma missing_names_empty_iff:
  "missing_names rs = [] \<longleftrightarrow> (\<forall>ms. ValueNotFound ms \<in> set rs \<longrightarrow> ms = [])"
  by (induction rs rule: missing_names.induct) auto

lemma missing_names_map_nonempty:
  "missing_names (map f xs) \<noteq> [] \<longleftrightarrow> (\<exists>x \<in> set xs. \<exists>ms. f x = ValueNotFound ms \<and> ms \<noteq> [])"
proof (induction xs)
  case Nil
  then show ?case by simp
next
  case (Cons x xs)
  then show ?case by (cases "f x") auto
qed

lemma missing_in_nonempty_iff:
  "missing_in self kwargs \<noteq> [] \<longleftrightarrow>
     (\<exists>item \<in> set (in_entries self). \<exists>ms. in_value self kwargs item = ValueNotFound ms \<and> ms \<noteq> [])"
  unfolding missing_in_def by (rule missing_names_map_nonempty)

lemma missing_out_nonempty_iff:
  "missing_out self kwargs \<noteq> [] \<longleftrightarrow>
     (\<exists>item \<in> set (out_entries self). \<exists>ms. out_value self kwargs item = ValueNotFound ms \<and> ms \<noteq> [])"
  unfolding missing_out_def by (rule missing_names_map_nonempty)

lemma call_missing:
  assumes "has_handlers self" "\<not> (verbose_of self kwargs \<and> quiet_of self kwargs)"
    and "missing_in self kwargs \<noteq> [] \<or> missing_out self kwargs \<noteq> []"
  shows "call q env self kwargs =
     (resolutions self @ [Print (Echo (parent_get_help env @ [10]) True)] @
      map (\<lambda>option. Print (Secho (lit ''Error: Missing option: --'' @ option) True ''red'' True))
          (missing_in self kwargs @ missing_out self kwargs) @
      (if missing_out self kwargs \<noteq> [] then [Print (Echo OUTPUT_OPTION_ERR_MSG True)] else []),
      Exit 1)"
  unfolding call_eq[OF assms(1,2)] using assms(3) by (simp add: report_missing_def)


subsection \<open>The example action, evaluated\<close>

lemma example_generated_handlers:
  "generated_handlers example_command =
     [(lit ''a'', spec_ResultHandler (lit ''a'') [lit ''a'']),
      (lit ''b'', spec_ResultHandler (lit ''b'') [lit ''b'']),
      (lit ''c'', spec_ResultHandler (lit ''c'') [lit ''c''])]"
  by (simp add: example_command_def ActionCommand_init_def example_action_def
      example_signature_def example_q2cli_def example_handler_def handler_map_def lit_def Let_def)

lemma example_signature_eq: "signature (ac_action example_command) = example_signature"
  by (simp add: example_command_def ActionCommand_init_def example_action_def Let_def)

lemma example_has_handlers: "has_handlers example_command"
  unfolding has_handlers_def example_generated_handlers example_signature_eq
  by (simp add: example_signature_def lit_def)

lemma example_in_entries:
  "in_entries example_command =
     [\<lparr>item_type = Input, item_name = lit ''a'', ast_type = lit ''expression'', item_rest = []\<rparr>,
      \<lparr>item_type = Parameter, item_name = lit ''b'', ast_type = lit ''expression'', item_rest = []\<rparr>]"
  unfolding in_entries_def example_signature_eq by (simp add: example_signature_def)

lemma example_out_entries:
  "out_entries example_command =
     [\<lparr>item_type = Output, item_name = lit ''c'', ast_type = lit ''expression'', item_rest = []\<rparr>]"
  unfolding out_entries_def example_signature_eq by (simp add: example_signature_def)

lemma example_resolutions:
  "resolutions example_command = [Resolve (lit ''a''), Resolve (lit ''b''), Resolve (lit ''c'')]"
  unfolding resolutions_def example_in_entries example_out_entries by simp

lemma example_fields:
  "verbose_handler example_command = example_flag (lit ''verbose'')"
  "quiet_handler example_command = example_flag (lit ''quiet'')"
  "output_dir_handler example_command =
     spec_OutputDirHandler (\<lambda>dir args. dir @ [47] @ concat args) (lit ''output_dir'')
       [lit ''output_dir'']"
  "cmd_config_handler example_command =
     example_config (to_cli_name example_q2cli (plugin_name example_plugin))
                    (to_cli_name example_q2cli (action_id example_action))"
  "ac_plugin example_command = example_plugin"
  by (simp_all add: example_command_def ActionCommand_init_def example_q2cli_def Let_def)

lemma example_cmd_fallback:
  "cmd_fallback_of example_command kwargs =
     (case kwargs (lit ''cmd_config'') of
        None \<Rightarrow> (\<lambda>args. None)
      | Some file \<Rightarrow>
          (\<lambda>args. if args = [lit ''b''] then Some (lit ''7'')
                   else if args = [lit ''output_dir''] then Some (lit ''out'')
                   else if args = [lit ''c''] \<and> file = lit ''with-c.cfg''
                   then Some (lit ''cfg.qza'')
                   else None))"
  unfolding cmd_fallback_of_def example_fields by (simp add: example_config_def)

lemma example_verbose:
  "verbose_of example_command kwargs =
     (case kwargs (lit ''verbose'') of Some v \<Rightarrow> True
      | None \<Rightarrow> cmd_fallback_of example_command kwargs [lit ''verbose''] \<noteq> None)"
  unfolding verbose_of_def example_fields by (simp add: example_flag_def)

lemma example_quiet:
  "quiet_of example_command kwargs =
     (case kwargs (lit ''quiet'') of Some v \<Rightarrow> True
      | None \<Rightarrow> cmd_fallback_of example_command kwargs [lit ''quiet''] \<noteq> None)"
  unfolding quiet_of_def example_fields by (simp add: example_flag_def)

lemma example_out_fallback:
  "out_fallback_of example_command kwargs =
     (case spec_locate_value (lit ''output_dir'') [lit ''output_dir''] kwargs
             (cmd_fallback_of example_command kwargs) of
        Value dir \<Rightarrow> (\<lambda>args. Some (dir @ [47] @ concat args))
      | ValueNotFound missing \<Rightarrow> (\<lambda>args. None))"
  unfolding out_fallback_of_def example_fields by (simp add: spec_OutputDirHandler_def split: found.splits)

lemma example_in_value:
  "in_value example_command kwargs
      \<lparr>item_type = t, item_name = lit ''a'', ast_type = u, item_rest = r\<rparr> =
     spec_locate_value (lit ''a'') [lit ''a''] kwargs (cmd_fallback_of example_command kwargs)"
  "in_value example_command kwargs
      \<lparr>item_type = t, item_name = lit ''b'', ast_type = u, item_rest = r\<rparr> =
     spec_locate_value (lit ''b'') [lit ''b''] kwargs (cmd_fallback_of example_command kwargs)"
  unfolding in_value_def example_generated_handlers
  by (simp_all add: spec_ResultHandler_def lit_def)

lemma example_out_value:
  "out_value example_command kwargs
      \<lparr>item_type = t, item_name = lit ''c'', ast_type = u, item_rest = r\<rparr> =
     spec_locate_value (lit ''c'') [lit ''c''] kwargs
       (fallback (cmd_fallback_of example_command kwargs) (out_fallback_of example_command kwargs))"
  unfolding out_value_def example_generated_handlers
  by (simp add: spec_ResultHandler_def lit_def)

lemma flags_simps:
  "flags [] k = None"
  "flags ((k', v) # ps) k = (if k' = k then Some v else flags ps k)"
  by (simp_all add: flags_def)

lemma lit_eq_iff: "lit s = lit t \<longleftrightarrow> s = t"
  by (simp add: lit_def inj_map_eq_map[OF inj_of_char])


text \<open>
  Claim C1. Take an invocation that gets to resolving its entries (every signature entry
  has its generated handler, and verbose and quiet are not both set) and in which the
  handler of at least one input, parameter or output entry fails, naming at least one
  option as missing (a handler that fails records the option names it needed). Then
  \<open>get_value\<close> was called for every input and parameter entry and for every output
  entry, in signature order; the command prints the help text of the parent context on the
  error stream, then one line \<open>Error: Missing option: --<name>\<close> for every name any
  failing handler reported, inputs and parameters first, then outputs; it prints the
  output-directory note exactly when an output entry is among the failures; it ends with
  status 1; and the action is not called.
\<close>

theorem missing_options_reported_together:
  assumes "has_handlers self"
    and "\<not> (verbose_of self kwargs \<and> quiet_of self kwargs)"
    and "(\<exists>item \<in> set (in_entries self). \<exists>ms. in_value self kwargs item = ValueNotFound ms \<and> ms \<noteq> []) \<or>
         (\<exists>item \<in> set (out_entries self). \<exists>ms. out_value self kwargs item = ValueNotFound ms \<and> ms \<noteq> [])"
  shows "call q env self kwargs =
           (resolutions self @ [Print (Echo (parent_get_help env @ [10]) True)] @
            map (\<lambda>option. Print (Secho (lit ''Error: Missing option: --'' @ option) True ''red'' True))
                (missing_in self kwargs @ missing_out self kwargs) @
            (if missing_out self kwargs \<noteq> [] then [Print (Echo OUTPUT_OPTION_ERR_MSG True)] else []),
            Exit 1) \<and>
         (\<forall>item \<in> set (in_entries self). \<forall>ms. in_value self kwargs item = ValueNotFound ms \<longrightarrow>
            set ms \<subseteq> set (missing_in self kwargs)) \<and>
         (\<forall>item \<in> set (out_entries self). \<forall>ms. out_value self kwargs item = ValueNotFound ms \<longrightarrow>
            set ms \<subseteq> set (missing_out self kwargs)) \<and>
         (missing_out self kwargs \<noteq> [] \<longleftrightarrow>
            (\<exists>item \<in> set (out_entries self). \<exists>ms. out_value self kwargs item = ValueNotFound ms \<and> ms \<noteq> [])) \<and>
         (\<forall>arguments stdout stderr. Action arguments stdout stderr \<notin> set (fst (call q env self kwargs)))"
proof (intro conjI ballI allI impI)
  have m: "missing_in self kwargs \<noteq> [] \<or> missing_out self kwargs \<noteq> []"
    unfolding missing_in_nonempty_iff missing_out_nonempty_iff by (rule assms(3))
  note eq = call_missing[OF assms(1,2) m]
  show "call q env self kwargs =
           (resolutions self @ [Print (Echo (parent_get_help env @ [10]) True)] @
            map (\<lambda>option. Print (Secho (lit ''Error: Missing option: --'' @ option) True ''red'' True))
                (missing_in self kwargs @ missing_out self kwargs) @
            (if missing_out self kwargs \<noteq> [] then [Print (Echo OUTPUT_OPTION_ERR_MSG True)] else []),
            Exit 1)"
    by (rule eq)
  show "missing_out self kwargs \<noteq> [] \<longleftrightarrow>
            (\<exists>item \<in> set (out_entries self). \<exists>ms. out_value self kwargs item = ValueNotFound ms \<and> ms \<noteq> [])"
    by (rule missing_out_nonempty_iff)
  fix arguments :: "(str \<times> 'a) list" and stdout stderr
  show "Action arguments stdout stderr \<notin> set (fst (call q env self kwargs))"
    unfolding eq by (auto simp: resolutions_def)
next
  fix item ms assume "item \<in> set (in_entries self)" "in_value self kwargs item = ValueNotFound ms"
  then have "ValueNotFound ms \<in> set (map (in_value self kwargs) (in_entries self))"
    by (metis image_eqI set_map)
  then show "set ms \<subseteq> set (missing_in self kwargs)"
    unfolding missing_in_def set_missing_names by blast
next
  fix item ms assume "item \<in> set (out_entries self)" "out_value self kwargs item = ValueNotFound ms"
  then have "ValueNotFound ms \<in> set (map (out_value self kwargs) (out_entries self))"
    by (metis image_eqI set_map)
  then show "set ms \<subseteq> set (missing_out self kwargs)"
    unfolding missing_out_def set_missing_names by blast
qed

theorem missing_options_witness:
  "call example_q2cli example_env example_command (flags [(lit ''a'', lit ''in.qza'')]) =
     ([Resolve (lit ''a''), Resolve (lit ''b''), Resolve (lit ''c''),
       Print (Echo (lit ''Usage: qiime demo do-it [OPTIONS]'' @ [10]) True),
       Print (Secho (lit ''Error: Missing option: --'' @ lit ''b'') True ''red'' True),
       Print (Secho (lit ''Error: Missing option: --'' @ lit ''c'') True ''red'' True),
       Print (Echo OUTPUT_OPTION_ERR_MSG True)], Exit 1)"
proof -
  let ?kw = "flags [(lit ''a'', lit ''in.qza'')]"
  have c: "cmd_fallback_of example_command ?kw = (\<lambda>args. None)"
    unfolding example_cmd_fallback by (simp add: flags_simps lit_eq_iff)
  have h2: "\<not> (verbose_of example_command ?kw \<and> quiet_of example_command ?kw)"
    unfolding example_verbose c by (simp add: flags_simps lit_eq_iff)
  have o: "out_fallback_of example_command ?kw = (\<lambda>args. None)"
    unfolding example_out_fallback c by (simp add: spec_locate_value_def flags_simps lit_eq_iff)
  have mi: "missing_in example_command ?kw = [lit ''b'']"
    unfolding missing_in_def example_in_entries list.map example_in_value c
    by (simp add: spec_locate_value_def flags_simps lit_eq_iff)
  have mo: "missing_out example_command ?kw = [lit ''c'']"
    unfolding missing_out_def example_out_entries list.map example_out_value c o
    by (simp add: spec_locate_value_def fallback_def flags_simps lit_eq_iff)
  have h3: "(\<exists>item \<in> set (in_entries example_command). \<exists>ms. in_value example_command ?kw item = ValueNotFound ms \<and> ms \<noteq> []) \<or>
         (\<exists>item \<in> set (out_entries example_command). \<exists>ms. out_value example_command ?kw item = ValueNotFound ms \<and> ms \<noteq> [])"
    unfolding missing_in_nonempty_iff[symmetric] mi by simp
  have hp: "parent_get_help example_env = lit ''Usage: qiime demo do-it [OPTIONS]''"
    by (simp add: example_env_def)
  from missing_options_reported_together[OF example_has_handlers h2 h3, THEN conjunct1, of example_q2cli example_env]
  show ?thesis unfolding example_resolutions mi mo hp by simp
qed

text \<open>
  Claim C4. When the verbose handler and the quiet handler both resolve to true, each
  against the command-config fallback, \<open>ActionCommand.__call__\<close> prints the one error
  line on the error stream and ends with status 1; no generated handler has been asked
  for a value and the action is not called.
\<close>

theorem verbose_and_quiet_conflict:
  assumes "verbose_of self kwargs" and "quiet_of self kwargs"
  shows "call q env self kwargs =
           ([Print (Secho (lit ''Unsure of how to be quiet and verbose at the same time.'')
                     True ''red'' True)],
            Exit 1) \<and>
         (\<forall>name. Resolve name \<notin> set (fst (call q env self kwargs))) \<and>
         (\<forall>arguments stdout stderr. Action arguments stdout stderr \<notin> set (fst (call q env self kwargs)))"
  unfolding call_conflict[OF assms] by simp

theorem verbose_and_quiet_witness:
  "call example_q2cli example_env example_command
       (flags [(lit ''verbose'', lit ''1''), (lit ''quiet'', lit ''1'')]) =
     ([Print (Secho (lit ''Unsure of how to be quiet and verbose at the same time.'')
               True ''red'' True)],
      Exit 1)"
proof -
  let ?kw = "flags [(lit ''verbose'', lit ''1''), (lit ''quiet'', lit ''1'')]"
  have v: "verbose_of example_command ?kw"
    unfolding example_verbose by (simp add: flags_simps lit_eq_iff)
  have q: "quiet_of example_command ?kw"
    unfolding example_quiet by (simp add: flags_simps lit_eq_iff)
  from verbose_and_quiet_conflict[OF v q, THEN conjunct1] show ?thesis .
qed

section \<open>Execution and results\<close>

lemma found_values_all:
  assumes "\<forall>x \<in> set xs. \<exists>v. f x = Value v"
  shows "map Value (found_values (map f xs)) = map f xs \<and> missing_names (map f xs) = []"
  using assms
proof (induction xs)
  case Nil
  then show ?case by simp
next
  case (Cons x xs)
  then obtain v where "f x = Value v" by auto
  with Cons show ?case by simp
qed

lemma save_results_eq:
  "save_results quiet results outputs =
     concat (map (\<lambda>(result, output).
                    Save result output #
                    (if quiet then []
                     else [Print (Secho (lit ''Saved '' @ result_type result @ lit '' to: '' @
                                          save result output) False ''green'' False)]))
                 (zip results outputs))"
  by (induction quiet results outputs rule: save_results.induct) (simp_all add: Let_def)

lemma save_results_no_file_events:
  "NamedTemporaryFile p s d m \<notin> set (save_results quiet results outputs)"
  "Close n \<notin> set (save_results quiet results outputs)"
  "Remove n \<notin> set (save_results quiet results outputs)"
  "Action a l l' \<notin> set (save_results quiet results outputs)"
  by (induction quiet results outputs rule: save_results.induct) (simp_all add: Let_def)

lemma call_resolved:
  assumes "has_handlers self" "\<not> (verbose_of self kwargs \<and> quiet_of self kwargs)"
    and "\<forall>item \<in> set (in_entries self). \<exists>v. in_value self kwargs item = Value v"
    and "\<forall>item \<in> set (out_entries self). \<exists>v. out_value self kwargs item = Value v"
  shows "call q env self kwargs =
     bind (resolutions self, Return ()) (\<lambda>u.
       execute q env self (arguments_of self kwargs) (outputs_of self kwargs)
              (verbose_of self kwargs) (quiet_of self kwargs))"
    and "map Value (outputs_of self kwargs) = map (out_value self kwargs) (out_entries self)"
proof -
  have 1: "missing_in self kwargs = []"
    unfolding missing_in_def using found_values_all[OF assms(3)] by simp
  have 2: "missing_out self kwargs = []"
    unfolding missing_out_def using found_values_all[OF assms(4)] by simp
  show "call q env self kwargs =
     bind (resolutions self, Return ()) (\<lambda>u.
       execute q env self (arguments_of self kwargs) (outputs_of self kwargs)
              (verbose_of self kwargs) (quiet_of self kwargs))"
    unfolding call_eq[OF assms(1,2)] 1 2 by simp
  show "map Value (outputs_of self kwargs) = map (out_value self kwargs) (out_entries self)"
    unfolding outputs_of_def using found_values_all[OF assms(4)] by simp
qed

lemma execute_success:
  assumes "run_action env arguments = Inr results"
  shows "execute q env self arguments outputs verbose quiet =
     ((if verbose then [Action arguments LogNone LogNone]
       else [NamedTemporaryFile (lit ''qiime2-q2cli-err-'') (lit ''.log'') False ''w'',
             Action arguments (LogFile (log_name env)) (LogFile (log_name env))]) @
      (if \<not> verbose \<and> path_exists env (log_name env)
       then [Close (log_name env), Remove (log_name env)] else []) @
      save_results quiet results outputs,
      Return ())"
  using assms by (simp add: execute_def finally_block_def)

lemma execute_failure:
  assumes "run_action env arguments = Inl e"
  shows "execute q env self arguments outputs verbose quiet =
     ((if verbose then [Action arguments LogNone LogNone]
       else [NamedTemporaryFile (lit ''qiime2-q2cli-err-'') (lit ''.log'') False ''w'',
             Action arguments (LogFile (log_name env)) (LogFile (log_name env))]),
      ExitWithError e
        (lit ''Plugin error from '' @ to_cli_name q (plugin_name (ac_plugin self)) @ lit '':'')
        (if verbose then LogStderr else LogFile (log_name env)))"
  using assms by (simp add: execute_def finally_block_def Let_def)


lemma example_all_given:
  fixes b :: str
  defines "kw \<equiv> flags [(lit ''a'', lit ''in.qza''), (lit ''b'', b), (lit ''c'', lit ''out.qza'')]"
  shows "\<not> (verbose_of example_command kw \<and> quiet_of example_command kw)"
    and "\<not> verbose_of example_command kw"
    and "\<not> quiet_of example_command kw"
    and "\<forall>item \<in> set (in_entries example_command). \<exists>v. in_value example_command kw item = Value v"
    and "\<forall>item \<in> set (out_entries example_command). \<exists>v. out_value example_command kw item = Value v"
    and "arguments_of example_command kw = [(lit ''a'', lit ''in.qza''), (lit ''b'', b)]"
    and "outputs_of example_command kw = [lit ''out.qza'']"
proof -
  have c: "cmd_fallback_of example_command kw = (\<lambda>args. None)"
    unfolding example_cmd_fallback kw_def by (simp add: flags_simps lit_eq_iff)
  show v: "\<not> verbose_of example_command kw"
    unfolding example_verbose c by (simp add: kw_def flags_simps lit_eq_iff)
  then show "\<not> (verbose_of example_command kw \<and> quiet_of example_command kw)" by simp
  show "\<not> quiet_of example_command kw"
    unfolding example_quiet c by (simp add: kw_def flags_simps lit_eq_iff)
  have ia: "in_value example_command kw
      \<lparr>item_type = Input, item_name = lit ''a'', ast_type = lit ''expression'', item_rest = []\<rparr> =
      Value (lit ''in.qza'')"
    unfolding example_in_value by (simp add: spec_locate_value_def kw_def flags_simps lit_eq_iff)
  have ib: "in_value example_command kw
      \<lparr>item_type = Parameter, item_name = lit ''b'', ast_type = lit ''expression'', item_rest = []\<rparr> =
      Value b"
    unfolding example_in_value by (simp add: spec_locate_value_def kw_def flags_simps lit_eq_iff)
  have oc: "out_value example_command kw
      \<lparr>item_type = Output, item_name = lit ''c'', ast_type = lit ''expression'', item_rest = []\<rparr> =
      Value (lit ''out.qza'')"
    unfolding example_out_value by (simp add: spec_locate_value_def kw_def flags_simps lit_eq_iff)
  show "\<forall>item \<in> set (in_entries example_command). \<exists>v. in_value example_command kw item = Value v"
    unfolding example_in_entries using ia ib by simp
  show "\<forall>item \<in> set (out_entries example_command). \<exists>v. out_value example_command kw item = Value v"
    unfolding example_out_entries using oc by simp
  show "arguments_of example_command kw = [(lit ''a'', lit ''in.qza''), (lit ''b'', b)]"
    unfolding arguments_of_def example_in_entries list.map ia ib
    by (simp add: lit_eq_iff)
  show "outputs_of example_command kw = [lit ''out.qza'']"
    unfolding outputs_of_def example_out_entries list.map oc by simp
qed

lemma example_env_simps:
  "log_name example_env = lit ''/tmp/qiime2-q2cli-err-x.log''"
  "path_exists example_env p = True"
  "parent_get_help example_env = lit ''Usage: qiime demo do-it [OPTIONS]''"
  "run_action example_env [(lit ''a'', x), (lit ''b'', lit ''5'')] = Inr [example_result]"
  "run_action example_env [(lit ''a'', x), (lit ''b'', lit ''0'')] = Inl (lit ''division by zero'')"
  by (simp_all add: example_env_def lit_eq_iff)

text \<open>
  Claim C5. When every entry resolves and the action returns its results, the run ends
  with the loop over \<open>zip(results, outputs)\<close>: for each pair in turn the result is
  saved to the output and, unless quiet, one line \<open>Saved <type> to: <path>\<close> is printed
  (green, on standard output) with the result's type and the path \<open>save\<close> returned;
  nothing is saved and no such line is printed before. \<open>outputs\<close> holds the resolved
  values of the output entries in signature order, so when the action returns one result
  for each output entry, every result is saved, the i-th result to the i-th output entry's
  location.
\<close>

theorem results_saved_in_output_order:
  assumes "has_handlers self"
    and "\<not> (verbose_of self kwargs \<and> quiet_of self kwargs)"
    and "\<forall>item \<in> set (in_entries self). \<exists>v. in_value self kwargs item = Value v"
    and "\<forall>item \<in> set (out_entries self). \<exists>v. out_value self kwargs item = Value v"
    and "run_action env (arguments_of self kwargs) = Inr results"
  shows "(\<exists>before.
            call q env self kwargs =
              (before @
               concat (map (\<lambda>(result, output).
                              Save result output #
                              (if quiet_of self kwargs then []
                               else [Print (Secho (lit ''Saved '' @ result_type result @ lit '' to: '' @
                                                    save result output) False ''green'' False)]))
                           (zip results (outputs_of self kwargs))),
               Return ()) \<and>
            (\<forall>e \<in> set before. (\<forall>result output. e \<noteq> Save result output) \<and>
                               (\<forall>m b c d. e \<noteq> Print (Secho m b c d)))) \<and>
         map Value (outputs_of self kwargs) = map (out_value self kwargs) (out_entries self) \<and>
         (length results = length (out_entries self) \<longrightarrow>
            map fst (zip results (outputs_of self kwargs)) = results \<and>
            map snd (zip results (outputs_of self kwargs)) = outputs_of self kwargs)"
proof (intro conjI impI)
  note c = call_resolved[OF assms(1-4)]
  let ?before = "resolutions self @
      (if verbose_of self kwargs then [Action (arguments_of self kwargs) LogNone LogNone]
       else [NamedTemporaryFile (lit ''qiime2-q2cli-err-'') (lit ''.log'') False ''w'',
             Action (arguments_of self kwargs) (LogFile (log_name env)) (LogFile (log_name env))]) @
      (if \<not> verbose_of self kwargs \<and> path_exists env (log_name env)
       then [Close (log_name env), Remove (log_name env)] else [])"
  have "call q env self kwargs =
      (?before @ save_results (quiet_of self kwargs) results (outputs_of self kwargs), Return ())"
    unfolding c(1) execute_success[OF assms(5)] by simp
  moreover have "\<forall>e \<in> set ?before. (\<forall>result output. e \<noteq> Save result output) \<and>
                               (\<forall>m b c d. e \<noteq> Print (Secho m b c d))"
    by (auto simp: resolutions_def)
  ultimately show "\<exists>before.
            call q env self kwargs =
              (before @
               concat (map (\<lambda>(result, output).
                              Save result output #
                              (if quiet_of self kwargs then []
                               else [Print (Secho (lit ''Saved '' @ result_type result @ lit '' to: '' @
                                                    save result output) False ''green'' False)]))
                           (zip results (outputs_of self kwargs))),
               Return ()) \<and>
            (\<forall>e \<in> set before. (\<forall>result output. e \<noteq> Save result output) \<and>
                               (\<forall>m b c d. e \<noteq> Print (Secho m b c d)))"
    unfolding save_results_eq by blast
  show "map Value (outputs_of self kwargs) = map (out_value self kwargs) (out_entries self)"
    by (rule c(2))
  assume "length results = length (out_entries self)"
  moreover have "length (outputs_of self kwargs) = length (out_entries self)"
    using arg_cong[OF c(2), of length] by simp
  ultimately have l: "length results = length (outputs_of self kwargs)" by simp
  then show "map fst (zip results (outputs_of self kwargs)) = results" by simp
  from l show "map snd (zip results (outputs_of self kwargs)) = outputs_of self kwargs" by simp
qed

subsection \<open>The action with two outputs, evaluated\<close>

lemma build_generated_handlers_keys:
  "fst ` set (build_generated_handlers q items handlers) = fst ` set handlers \<union> item_name ` set items"
proof (induction items arbitrary: handlers)
  case Nil
  then show ?case by simp
next
  case (Cons item items)
  show ?case
    unfolding build_generated_handlers.simps Let_def Cons.IH dom_update by auto
qed

lemma ActionCommand_init_has_handlers: "has_handlers (ActionCommand_init q name plugin action)"
proof -
  have "item \<in> set (signature action) \<Longrightarrow>
        map_of (build_generated_handlers q (signature action) []) (item_name item) \<noteq> None" for item
    unfolding map_of_eq_None_iff build_generated_handlers_keys by simp
  then show ?thesis
    by (simp add: has_handlers_def ActionCommand_init_def Let_def list_all_iff)
qed

lemma example_split_generated_handlers:
  "generated_handlers example_split_command =
     [(lit ''t'', spec_ResultHandler (lit ''t'') [lit ''t'']),
      (lit ''u'', spec_ResultHandler (lit ''u'') [lit ''u'']),
      (lit ''v'', spec_ResultHandler (lit ''v'') [lit ''v''])]"
  by (simp add: example_split_command_def ActionCommand_init_def example_split_action_def
      example_split_signature_def example_q2cli_def example_handler_def handler_map_def lit_def Let_def)

lemma example_split_signature_eq:
  "signature (ac_action example_split_command) = example_split_signature"
  by (simp add: example_split_command_def ActionCommand_init_def example_split_action_def Let_def)

lemma example_split_has_handlers: "has_handlers example_split_command"
  unfolding example_split_command_def by (rule ActionCommand_init_has_handlers)

lemma example_split_in_entries:
  "in_entries example_split_command =
     [\<lparr>item_type = Input, item_name = lit ''t'', ast_type = lit ''expression'', item_rest = []\<rparr>]"
  unfolding in_entries_def example_split_signature_eq by (simp add: example_split_signature_def)

lemma example_split_out_entries:
  "out_entries example_split_command =
     [\<lparr>item_type = Output, item_name = lit ''u'', ast_type = lit ''expression'', item_rest = []\<rparr>,
      \<lparr>item_type = Output, item_name = lit ''v'', ast_type = lit ''expression'', item_rest = []\<rparr>]"
  unfolding out_entries_def example_split_signature_eq by (simp add: example_split_signature_def)

lemma example_split_fields:
  "verbose_handler example_split_command = example_flag (lit ''verbose'')"
  "quiet_handler example_split_command = example_flag (lit ''quiet'')"
  "cmd_config_handler example_split_command =
     example_config (to_cli_name example_q2cli (plugin_name example_plugin))
                    (to_cli_name example_q2cli (action_id example_split_action))"
  by (simp_all add: example_split_command_def ActionCommand_init_def example_q2cli_def Let_def)

lemma example_split_cmd_fallback:
  "kwargs (lit ''cmd_config'') = None \<Longrightarrow>
     cmd_fallback_of example_split_command kwargs = (\<lambda>args. None)"
  unfolding cmd_fallback_of_def example_split_fields by (simp add: example_config_def)

lemma example_split_verbose:
  "verbose_of example_split_command kwargs =
     (case kwargs (lit ''verbose'') of Some v \<Rightarrow> True
      | None \<Rightarrow> cmd_fallback_of example_split_command kwargs [lit ''verbose''] \<noteq> None)"
  unfolding verbose_of_def example_split_fields by (simp add: example_flag_def)

lemma example_split_quiet:
  "quiet_of example_split_command kwargs =
     (case kwargs (lit ''quiet'') of Some v \<Rightarrow> True
      | None \<Rightarrow> cmd_fallback_of example_split_command kwargs [lit ''quiet''] \<noteq> None)"
  unfolding quiet_of_def example_split_fields by (simp add: example_flag_def)

lemma example_split_given:
  assumes "kw (lit ''cmd_config'') = None" and "kw (lit ''verbose'') = None"
    and "kw (lit ''t'') = Some (lit ''in.qza'')"
    and "kw (lit ''u'') = Some (lit ''left'')" and "kw (lit ''v'') = Some (lit ''right'')"
  shows "\<not> (verbose_of example_split_command kw \<and> quiet_of example_split_command kw)"
    and "\<forall>item \<in> set (in_entries example_split_command).
           \<exists>v. in_value example_split_command kw item = Value v"
    and "\<forall>item \<in> set (out_entries example_split_command).
           \<exists>v. out_value example_split_command kw item = Value v"
    and "arguments_of example_split_command kw = [(lit ''t'', lit ''in.qza'')]"
    and "outputs_of example_split_command kw = [lit ''left'', lit ''right'']"
    and "quiet_of example_split_command kw = (kw (lit ''quiet'') \<noteq> None)"
proof -
  note c = example_split_cmd_fallback[of kw, OF assms(1)]
  have v: "\<not> verbose_of example_split_command kw"
    unfolding example_split_verbose c using assms(2) by simp
  then show "\<not> (verbose_of example_split_command kw \<and> quiet_of example_split_command kw)"
    by simp
  show "quiet_of example_split_command kw = (kw (lit ''quiet'') \<noteq> None)"
    unfolding example_split_quiet c by (simp split: option.splits)
  have it: "in_value example_split_command kw
      \<lparr>item_type = Input, item_name = lit ''t'', ast_type = lit ''expression'', item_rest = []\<rparr> =
      Value (lit ''in.qza'')"
    unfolding in_value_def example_split_generated_handlers
    using assms(3) by (simp add: spec_ResultHandler_def spec_locate_value_def lit_eq_iff)
  have ou: "out_value example_split_command kw
      \<lparr>item_type = Output, item_name = lit ''u'', ast_type = lit ''expression'', item_rest = []\<rparr> =
      Value (lit ''left'')"
    unfolding out_value_def example_split_generated_handlers
    using assms(4) by (simp add: spec_ResultHandler_def spec_locate_value_def lit_eq_iff)
  have ov: "out_value example_split_command kw
      \<lparr>item_type = Output, item_name = lit ''v'', ast_type = lit ''expression'', item_rest = []\<rparr> =
      Value (lit ''right'')"
    unfolding out_value_def example_split_generated_handlers
    using assms(5) by (simp add: spec_ResultHandler_def spec_locate_value_def lit_eq_iff)
  show "\<forall>item \<in> set (in_entries example_split_command).
           \<exists>v. in_value example_split_command kw item = Value v"
    unfolding example_split_in_entries using it by simp
  show "\<forall>item \<in> set (out_entries example_split_command).
           \<exists>v. out_value example_split_command kw item = Value v"
    unfolding example_split_out_entries using ou ov by simp
  show "arguments_of example_split_command kw = [(lit ''t'', lit ''in.qza'')]"
    unfolding arguments_of_def example_split_in_entries list.map it by simp
  show "outputs_of example_split_command kw = [lit ''left'', lit ''right'']"
    unfolding outputs_of_def example_split_out_entries list.map ou ov by simp
qed

lemma example_split_run:
  "run_action example_split_env arguments = Inr [example_left, example_right]"
  by (simp add: example_split_env_def)


theorem results_saved_witness:
  "(\<exists>before.
      call example_q2cli example_split_env example_split_command
        (flags [(lit ''t'', lit ''in.qza''), (lit ''u'', lit ''left''), (lit ''v'', lit ''right'')]) =
      (before @
       [Save example_left (lit ''left''),
        Print (Secho (lit ''Saved '' @ lit ''Left'' @ lit '' to: '' @ lit ''left'' @ lit ''.qza'')
                 False ''green'' False),
        Save example_right (lit ''right''),
        Print (Secho (lit ''Saved '' @ lit ''Right'' @ lit '' to: '' @ lit ''right'' @ lit ''.qzv'')
                 False ''green'' False)],
       Return ())) \<and>
   (\<exists>before.
      call example_q2cli example_split_env example_split_command
        (flags [(lit ''t'', lit ''in.qza''), (lit ''u'', lit ''left''), (lit ''v'', lit ''right''),
                (lit ''quiet'', lit ''1'')]) =
      (before @ [Save example_left (lit ''left''), Save example_right (lit ''right'')],
       Return ())) \<and>
   map Value
     (outputs_of example_split_command
        (flags [(lit ''t'', lit ''in.qza''), (lit ''u'', lit ''left''), (lit ''v'', lit ''right'')])) =
     [Value (lit ''left''), Value (lit ''right'')] \<and>
   map fst (zip [example_left, example_right]
     (outputs_of example_split_command
        (flags [(lit ''t'', lit ''in.qza''), (lit ''u'', lit ''left''), (lit ''v'', lit ''right'')]))) =
     [example_left, example_right] \<and>
   map snd (zip [example_left, example_right]
     (outputs_of example_split_command
        (flags [(lit ''t'', lit ''in.qza''), (lit ''u'', lit ''left''), (lit ''v'', lit ''right'')]))) =
     [lit ''left'', lit ''right'']"
proof -
  let ?kw = "flags [(lit ''t'', lit ''in.qza''), (lit ''u'', lit ''left''), (lit ''v'', lit ''right'')]"
  let ?kq = "flags [(lit ''t'', lit ''in.qza''), (lit ''u'', lit ''left''), (lit ''v'', lit ''right''),
                (lit ''quiet'', lit ''1'')]"
  have k: "?kw (lit ''cmd_config'') = None" "?kw (lit ''verbose'') = None"
    "?kw (lit ''t'') = Some (lit ''in.qza'')" "?kw (lit ''u'') = Some (lit ''left'')"
    "?kw (lit ''v'') = Some (lit ''right'')" "?kw (lit ''quiet'') = None"
    by (simp_all add: flags_simps lit_eq_iff)
  have kq: "?kq (lit ''cmd_config'') = None" "?kq (lit ''verbose'') = None"
    "?kq (lit ''t'') = Some (lit ''in.qza'')" "?kq (lit ''u'') = Some (lit ''left'')"
    "?kq (lit ''v'') = Some (lit ''right'')" "?kq (lit ''quiet'') = Some (lit ''1'')"
    by (simp_all add: flags_simps lit_eq_iff)
  note e = example_split_given[of ?kw, OF k(1-5)]
  note eq = example_split_given[of ?kq, OF kq(1-5)]
  have nq: "quiet_of example_split_command ?kw = False" unfolding e(6) k(6) by simp
  have yq: "quiet_of example_split_command ?kq = True" unfolding eq(6) kq(6) by simp
  have len: "length [example_left, example_right] = length (out_entries example_split_command)"
    unfolding example_split_out_entries by simp
  note t = results_saved_in_output_order[OF example_split_has_handlers e(1) e(2) e(3) example_split_run,
      where q = example_q2cli]
  note tq = results_saved_in_output_order[OF example_split_has_handlers eq(1) eq(2) eq(3) example_split_run,
      where q = example_q2cli]
  from t[THEN conjunct1]
  have "\<exists>before. call example_q2cli example_split_env example_split_command ?kw =
       (before @
        concat (map (\<lambda>(result, output).
                       Save result output #
                       (if quiet_of example_split_command ?kw then []
                        else [Print (Secho (lit ''Saved '' @ result_type result @ lit '' to: '' @
                                             save result output) False ''green'' False)]))
                    (zip [example_left, example_right] (outputs_of example_split_command ?kw))),
        Return ())"
    by (elim exE conjE) (rule exI)
  moreover have "concat (map (\<lambda>(result, output).
                       Save result output #
                       (if quiet_of example_split_command ?kw then []
                        else [Print (Secho (lit ''Saved '' @ result_type result @ lit '' to: '' @
                                             save result output) False ''green'' False)]))
                    (zip [example_left, example_right] (outputs_of example_split_command ?kw))) =
       [Save example_left (lit ''left''),
        Print (Secho (lit ''Saved '' @ lit ''Left'' @ lit '' to: '' @ lit ''left'' @ lit ''.qza'')
                 False ''green'' False),
        Save example_right (lit ''right''),
        Print (Secho (lit ''Saved '' @ lit ''Right'' @ lit '' to: '' @ lit ''right'' @ lit ''.qzv'')
                 False ''green'' False)]"
    unfolding e(5) nq by (simp add: example_left_def example_right_def)
  ultimately have 1: "\<exists>before. call example_q2cli example_split_env example_split_command ?kw =
      (before @
       [Save example_left (lit ''left''),
        Print (Secho (lit ''Saved '' @ lit ''Left'' @ lit '' to: '' @ lit ''left'' @ lit ''.qza'')
                 False ''green'' False),
        Save example_right (lit ''right''),
        Print (Secho (lit ''Saved '' @ lit ''Right'' @ lit '' to: '' @ lit ''right'' @ lit ''.qzv'')
                 False ''green'' False)],
       Return ())"
    by (simp only:)
  from tq[THEN conjunct1]
  have "\<exists>before. call example_q2cli example_split_env example_split_command ?kq =
       (before @
        concat (map (\<lambda>(result, output).
                       Save result output #
                       (if quiet_of example_split_command ?kq then []
                        else [Print (Secho (lit ''Saved '' @ result_type result @ lit '' to: '' @
                                             save result output) False ''green'' False)]))
                    (zip [example_left, example_right] (outputs_of example_split_command ?kq))),
        Return ())"
    by (elim exE conjE) (rule exI)
  moreover have "concat (map (\<lambda>(result, output).
                       Save result output #
                       (if quiet_of example_split_command ?kq then []
                        else [Print (Secho (lit ''Saved '' @ result_type result @ lit '' to: '' @
                                             save result output) False ''green'' False)]))
                    (zip [example_left, example_right] (outputs_of example_split_command ?kq))) =
       [Save example_left (lit ''left''), Save example_right (lit ''right'')]"
    unfolding eq(5) yq by simp
  ultimately have 2: "\<exists>before. call example_q2cli example_split_env example_split_command ?kq =
      (before @ [Save example_left (lit ''left''), Save example_right (lit ''right'')], Return ())"
    by (simp only:)
  have 3: "map Value (outputs_of example_split_command ?kw) = [Value (lit ''left''), Value (lit ''right'')]"
    unfolding e(5) by simp
  from t[THEN conjunct2, THEN conjunct2, THEN mp, OF len]
  have 4: "map fst (zip [example_left, example_right] (outputs_of example_split_command ?kw)) =
      [example_left, example_right]"
    by (rule conjunct1)
  from t[THEN conjunct2, THEN conjunct2, THEN mp, OF len]
  have "map snd (zip [example_left, example_right] (outputs_of example_split_command ?kw)) =
      outputs_of example_split_command ?kw"
    by (rule conjunct2)
  then have 5: "map snd (zip [example_left, example_right] (outputs_of example_split_command ?kw)) =
      [lit ''left'', lit ''right'']"
    unfolding e(5) .
  from 1 2 3 4 5 show ?thesis by (intro conjI)
qed

text \<open>
  Claim C6. When every entry resolves, the action is called. Not verbose: a temporary
  file is first made with \<open>NamedTemporaryFile(prefix='qiime2-q2cli-err-', suffix='.log',
  delete=False, mode='w')\<close> (the call that picks a fresh name) and is given to
  \<open>redirected_stdio\<close> as both stdout and stderr. If the action returns, the file is
  closed and then removed, provided \<open>os.path.exists\<close> still finds it; if the action
  raises, \<open>exit_with_error\<close> gets the file as its traceback and nothing is closed or
  removed. Verbose: no file is made, \<open>redirected_stdio\<close> gets \<open>None\<close> for both
  streams, and a failure is reported with \<open>'stderr'\<close> as traceback. So the file is
  removed exactly when the run was not verbose, the action succeeded and the file was
  still there.
\<close>

theorem log_file_deleted_only_on_success:
  assumes "has_handlers self"
    and "\<not> (verbose_of self kwargs \<and> quiet_of self kwargs)"
    and "\<forall>item \<in> set (in_entries self). \<exists>v. in_value self kwargs item = Value v"
    and "\<forall>item \<in> set (out_entries self). \<exists>v. out_value self kwargs item = Value v"
  shows "(\<forall>results. run_action env (arguments_of self kwargs) = Inr results \<longrightarrow>
            call q env self kwargs =
              (resolutions self @
               (if verbose_of self kwargs
                then [Action (arguments_of self kwargs) LogNone LogNone]
                else [NamedTemporaryFile (lit ''qiime2-q2cli-err-'') (lit ''.log'') False ''w'',
                      Action (arguments_of self kwargs) (LogFile (log_name env)) (LogFile (log_name env))]) @
               (if \<not> verbose_of self kwargs \<and> path_exists env (log_name env)
                then [Close (log_name env), Remove (log_name env)] else []) @
               save_results (quiet_of self kwargs) results (outputs_of self kwargs),
               Return ())) \<and>
         (\<forall>e. run_action env (arguments_of self kwargs) = Inl e \<longrightarrow>
            call q env self kwargs =
              (resolutions self @
               (if verbose_of self kwargs
                then [Action (arguments_of self kwargs) LogNone LogNone]
                else [NamedTemporaryFile (lit ''qiime2-q2cli-err-'') (lit ''.log'') False ''w'',
                      Action (arguments_of self kwargs) (LogFile (log_name env)) (LogFile (log_name env))]),
               ExitWithError e
                 (lit ''Plugin error from '' @ to_cli_name q (plugin_name (ac_plugin self)) @ lit '':'')
                 (if verbose_of self kwargs then LogStderr else LogFile (log_name env)))) \<and>
         (Remove (log_name env) \<in> set (fst (call q env self kwargs)) \<longleftrightarrow>
            \<not> verbose_of self kwargs \<and> path_exists env (log_name env) \<and>
            (\<exists>results. run_action env (arguments_of self kwargs) = Inr results)) \<and>
         ((\<exists>p s d m. NamedTemporaryFile p s d m \<in> set (fst (call q env self kwargs))) \<longleftrightarrow>
            \<not> verbose_of self kwargs)"
proof -
  note c = call_resolved(1)[OF assms(1-4)]
  have s: "call q env self kwargs =
              (resolutions self @
               (if verbose_of self kwargs
                then [Action (arguments_of self kwargs) LogNone LogNone]
                else [NamedTemporaryFile (lit ''qiime2-q2cli-err-'') (lit ''.log'') False ''w'',
                      Action (arguments_of self kwargs) (LogFile (log_name env)) (LogFile (log_name env))]) @
               (if \<not> verbose_of self kwargs \<and> path_exists env (log_name env)
                then [Close (log_name env), Remove (log_name env)] else []) @
               save_results (quiet_of self kwargs) results (outputs_of self kwargs),
               Return ())"
    if "run_action env (arguments_of self kwargs) = Inr results" for results
    unfolding c execute_success[OF that] by simp
  have f: "call q env self kwargs =
              (resolutions self @
               (if verbose_of self kwargs
                then [Action (arguments_of self kwargs) LogNone LogNone]
                else [NamedTemporaryFile (lit ''qiime2-q2cli-err-'') (lit ''.log'') False ''w'',
                      Action (arguments_of self kwargs) (LogFile (log_name env)) (LogFile (log_name env))]),
               ExitWithError e
                 (lit ''Plugin error from '' @ to_cli_name q (plugin_name (ac_plugin self)) @ lit '':'')
                 (if verbose_of self kwargs then LogStderr else LogFile (log_name env)))"
    if "run_action env (arguments_of self kwargs) = Inl e" for e
    unfolding c execute_failure[OF that] by simp
  have r: "Remove (log_name env) \<in> set (fst (call q env self kwargs)) \<longleftrightarrow>
            \<not> verbose_of self kwargs \<and> path_exists env (log_name env) \<and>
            (\<exists>results. run_action env (arguments_of self kwargs) = Inr results)"
  proof (cases "run_action env (arguments_of self kwargs)")
    case (Inl e)
    show ?thesis unfolding f[OF Inl] using Inl by (auto simp: resolutions_def)
  next
    case (Inr results)
    show ?thesis unfolding s[OF Inr] using Inr
      by (auto simp: resolutions_def save_results_no_file_events)
  qed
  have n: "(\<exists>p s d m. NamedTemporaryFile p s d m \<in> set (fst (call q env self kwargs))) \<longleftrightarrow>
            \<not> verbose_of self kwargs"
  proof (cases "run_action env (arguments_of self kwargs)")
    case (Inl e)
    show ?thesis unfolding f[OF Inl] by (auto simp: resolutions_def)
  next
    case (Inr results)
    show ?thesis unfolding s[OF Inr]
      by (auto simp: resolutions_def save_results_no_file_events)
  qed
  from s f r n show ?thesis by blast
qed

theorem log_file_witness:
  "call example_q2cli example_env example_command
     (flags [(lit ''a'', lit ''in.qza''), (lit ''b'', lit ''5''), (lit ''c'', lit ''out.qza'')]) =
     ([Resolve (lit ''a''), Resolve (lit ''b''), Resolve (lit ''c''),
       NamedTemporaryFile (lit ''qiime2-q2cli-err-'') (lit ''.log'') False ''w'',
       Action [(lit ''a'', lit ''in.qza''), (lit ''b'', lit ''5'')]
         (LogFile (lit ''/tmp/qiime2-q2cli-err-x.log'')) (LogFile (lit ''/tmp/qiime2-q2cli-err-x.log'')),
       Close (lit ''/tmp/qiime2-q2cli-err-x.log''), Remove (lit ''/tmp/qiime2-q2cli-err-x.log'')] @
      save_results False [example_result] [lit ''out.qza''],
      Return ()) \<and>
   call example_q2cli example_env example_command
     (flags [(lit ''a'', lit ''in.qza''), (lit ''b'', lit ''0''), (lit ''c'', lit ''out.qza'')]) =
     ([Resolve (lit ''a''), Resolve (lit ''b''), Resolve (lit ''c''),
       NamedTemporaryFile (lit ''qiime2-q2cli-err-'') (lit ''.log'') False ''w'',
       Action [(lit ''a'', lit ''in.qza''), (lit ''b'', lit ''0'')]
         (LogFile (lit ''/tmp/qiime2-q2cli-err-x.log'')) (LogFile (lit ''/tmp/qiime2-q2cli-err-x.log''))],
      ExitWithError (lit ''division by zero'')
        (lit ''Plugin error from '' @ to_cli_name example_q2cli (plugin_name example_plugin) @ lit '':'')
        (LogFile (lit ''/tmp/qiime2-q2cli-err-x.log'')))"
proof -
  let ?kw5 = "flags [(lit ''a'', lit ''in.qza''), (lit ''b'', lit ''5''), (lit ''c'', lit ''out.qza'')]"
  let ?kw0 = "flags [(lit ''a'', lit ''in.qza''), (lit ''b'', lit ''0''), (lit ''c'', lit ''out.qza'')]"
  note e5 = example_all_given[of "lit ''5''"]
  note e0 = example_all_given[of "lit ''0''"]
  have run5: "run_action example_env (arguments_of example_command ?kw5) = Inr [example_result]"
    unfolding e5(6) by (rule example_env_simps)
  have run0: "run_action example_env (arguments_of example_command ?kw0) = Inl (lit ''division by zero'')"
    unfolding e0(6) by (rule example_env_simps)
  from log_file_deleted_only_on_success[OF example_has_handlers e5(1) e5(4) e5(5),
      where q = example_q2cli and env = example_env, THEN conjunct1, THEN spec, THEN mp, OF run5]
  have 1: "call example_q2cli example_env example_command ?kw5 =
     ([Resolve (lit ''a''), Resolve (lit ''b''), Resolve (lit ''c''),
       NamedTemporaryFile (lit ''qiime2-q2cli-err-'') (lit ''.log'') False ''w'',
       Action [(lit ''a'', lit ''in.qza''), (lit ''b'', lit ''5'')]
         (LogFile (lit ''/tmp/qiime2-q2cli-err-x.log'')) (LogFile (lit ''/tmp/qiime2-q2cli-err-x.log'')),
       Close (lit ''/tmp/qiime2-q2cli-err-x.log''), Remove (lit ''/tmp/qiime2-q2cli-err-x.log'')] @
      save_results False [example_result] [lit ''out.qza''],
      Return ())"
    unfolding e5(6) e5(7) example_resolutions example_env_simps using e5(2) e5(3) by simp
  from log_file_deleted_only_on_success[OF example_has_handlers e0(1) e0(4) e0(5),
      where q = example_q2cli and env = example_env, THEN conjunct2, THEN conjunct1, THEN spec, THEN mp, OF run0]
  have 2: "call example_q2cli example_env example_command ?kw0 =
     ([Resolve (lit ''a''), Resolve (lit ''b''), Resolve (lit ''c''),
       NamedTemporaryFile (lit ''qiime2-q2cli-err-'') (lit ''.log'') False ''w'',
       Action [(lit ''a'', lit ''in.qza''), (lit ''b'', lit ''0'')]
         (LogFile (lit ''/tmp/qiime2-q2cli-err-x.log'')) (LogFile (lit ''/tmp/qiime2-q2cli-err-x.log''))],
      ExitWithError (lit ''division by zero'')
        (lit ''Plugin error from '' @ to_cli_name example_q2cli (plugin_name example_plugin) @ lit '':'')
        (LogFile (lit ''/tmp/qiime2-q2cli-err-x.log'')))"
    unfolding e0(6) example_resolutions example_env_simps example_fields using e0(2) by simp
  from 1 2 show ?thesis by (rule conjI)
qed

section \<open>The fallback chain of output entries\<close>

lemma spec_locate_value_first_success:
  "spec_locate_value click_name names kwargs (fallback cmd_fallback out_fallback) =
     (case first_success [kwargs click_name, cmd_fallback names, out_fallback names] of
        Some v \<Rightarrow> Value v
      | None \<Rightarrow> ValueNotFound names)"
  by (simp add: spec_locate_value_def fallback_def split: option.splits)


lemma out_fallback_from_config:
  assumes "output_dir_handler self = spec_OutputDirHandler derive dir_click dir_names"
    and "kwargs dir_click = None"
    and "cmd_fallback_of self kwargs dir_names = Some dir"
  shows "out_fallback_of self kwargs = (\<lambda>args. Some (derive dir args))"
  unfolding out_fallback_of_def assms(1)
  using assms(2,3) by (simp add: spec_OutputDirHandler_def spec_locate_value_def)


lemma example_out_handlers:
  "\<forall>item \<in> set (out_entries example_command).
     map_of (generated_handlers example_command) (item_name item) =
       Some (spec_ResultHandler (item_name item) [item_name item])"
  unfolding example_out_entries example_generated_handlers by (simp add: lit_eq_iff)

lemma example_c_entry:
  "\<lparr>item_type = Output, item_name = lit ''c'', ast_type = lit ''expression'', item_rest = []\<rparr>
     \<in> set (out_entries example_command)"
  unfolding example_out_entries by simp


text \<open>
  Claim C2. \<open>handle_out_params\<close> calls the handler of every output entry, in signature
  order, with the composite fallback. With handlers that resolve as section 4.4 of the
  spec describes, the value of an output entry is that of the first of three providers
  that has one, tried in this order: the explicit command-line value, the command-config
  provider, the output-directory provider; when none has one, the entry is missing.
\<close>

theorem output_resolution_order:
  assumes "has_handlers self"
    and "\<forall>item \<in> set (out_entries self).
           map_of (generated_handlers self) (item_name item) =
             Some (spec_ResultHandler (click_name item) (names item))"
  shows "handle_out_params self kwargs =
           (map (\<lambda>item. Resolve (item_name item)) (out_entries self),
            Return (outputs_of self kwargs, missing_out self kwargs)) \<and>
         (\<forall>item \<in> set (out_entries self).
            out_value self kwargs item =
              (case first_success [kwargs (click_name item),
                                   cmd_fallback_of self kwargs (names item),
                                   out_fallback_of self kwargs (names item)] of
                 Some v \<Rightarrow> Value v
               | None \<Rightarrow> ValueNotFound (names item)))"
proof (intro conjI ballI)
  show "handle_out_params self kwargs =
           (map (\<lambda>item. Resolve (item_name item)) (out_entries self),
            Return (outputs_of self kwargs, missing_out self kwargs))"
    using assms(1) by (rule handle_out_params_eq)
next
  fix item assume "item \<in> set (out_entries self)"
  with assms(2) have "map_of (generated_handlers self) (item_name item) =
             Some (spec_ResultHandler (click_name item) (names item))" by (rule bspec)
  then have "out_value self kwargs item =
      spec_locate_value (click_name item) (names item) kwargs
        (fallback (cmd_fallback_of self kwargs) (out_fallback_of self kwargs))"
    by (simp add: out_value_def spec_ResultHandler_def)
  then show "out_value self kwargs item =
              (case first_success [kwargs (click_name item),
                                   cmd_fallback_of self kwargs (names item),
                                   out_fallback_of self kwargs (names item)] of
                 Some v \<Rightarrow> Value v
               | None \<Rightarrow> ValueNotFound (names item))"
    unfolding spec_locate_value_first_success .
qed

theorem output_resolution_witness:
  "out_value example_command
     (flags [(lit ''c'', lit ''x.qza''), (lit ''cmd_config'', lit ''with-c.cfg''),
             (lit ''output_dir'', lit ''d'')])
     \<lparr>item_type = Output, item_name = lit ''c'', ast_type = lit ''expression'', item_rest = []\<rparr> =
     Value (lit ''x.qza'') \<and>
   out_value example_command
     (flags [(lit ''cmd_config'', lit ''with-c.cfg''), (lit ''output_dir'', lit ''d'')])
     \<lparr>item_type = Output, item_name = lit ''c'', ast_type = lit ''expression'', item_rest = []\<rparr> =
     Value (lit ''cfg.qza'') \<and>
   out_value example_command
     (flags [(lit ''cmd_config'', lit ''no-c.cfg''), (lit ''output_dir'', lit ''d'')])
     \<lparr>item_type = Output, item_name = lit ''c'', ast_type = lit ''expression'', item_rest = []\<rparr> =
     Value (lit ''d'' @ [47] @ lit ''c'') \<and>
   out_value example_command (flags [])
     \<lparr>item_type = Output, item_name = lit ''c'', ast_type = lit ''expression'', item_rest = []\<rparr> =
     ValueNotFound [lit ''c'']"
proof -
  let ?c = "\<lparr>item_type = Output, item_name = lit ''c'', ast_type = lit ''expression'', item_rest = []\<rparr>"
  note t = output_resolution_order[OF example_has_handlers example_out_handlers,
      THEN conjunct2, THEN bspec, OF example_c_entry]
  have 1: "out_value example_command
     (flags [(lit ''c'', lit ''x.qza''), (lit ''cmd_config'', lit ''with-c.cfg''),
             (lit ''output_dir'', lit ''d'')]) ?c = Value (lit ''x.qza'')"
    unfolding t by (simp add: flags_simps lit_eq_iff)
  have 2: "out_value example_command
     (flags [(lit ''cmd_config'', lit ''with-c.cfg''), (lit ''output_dir'', lit ''d'')]) ?c =
     Value (lit ''cfg.qza'')"
    unfolding t example_cmd_fallback by (simp add: flags_simps lit_eq_iff)
  have 3: "out_value example_command
     (flags [(lit ''cmd_config'', lit ''no-c.cfg''), (lit ''output_dir'', lit ''d'')]) ?c =
     Value (lit ''d'' @ [47] @ lit ''c'')"
    unfolding t example_cmd_fallback example_out_fallback
    by (simp add: flags_simps lit_eq_iff spec_locate_value_def)
  have 4: "out_value example_command (flags []) ?c = ValueNotFound [lit ''c'']"
    unfolding t example_cmd_fallback example_out_fallback
    by (simp add: flags_simps lit_eq_iff spec_locate_value_def)
  from 1 2 3 4 show ?thesis by (intro conjI)
qed

text \<open>
  Claim C9. \<open>handle_out_params\<close> resolves the output-directory meta-handler with the
  command-config provider as its fallback. So, with an output-directory handler as the
  spec describes it, when no \<open>--output-dir\<close> is given and the command config supplies
  the directory, the output-directory provider derives its paths under that directory;
  and output entries that have neither an explicit value nor a value of their own in the
  command config all resolve to such paths.
\<close>

theorem output_dir_from_command_config:
  assumes "has_handlers self"
    and "output_dir_handler self = spec_OutputDirHandler derive dir_click dir_names"
    and "kwargs dir_click = None"
    and "cmd_fallback_of self kwargs dir_names = Some dir"
  shows "out_fallback_of self kwargs = (\<lambda>args. Some (derive dir args)) \<and>
         ((\<forall>item \<in> set (out_entries self).
             map_of (generated_handlers self) (item_name item) =
               Some (spec_ResultHandler (click_name item) (names item)) \<and>
             kwargs (click_name item) = None \<and>
             cmd_fallback_of self kwargs (names item) = None) \<longrightarrow>
          handle_out_params self kwargs =
            (map (\<lambda>item. Resolve (item_name item)) (out_entries self),
             Return (map (\<lambda>item. derive dir (names item)) (out_entries self), [])))"
proof (intro conjI impI)
  show o: "out_fallback_of self kwargs = (\<lambda>args. Some (derive dir args))"
    using assms(2-4) by (rule out_fallback_from_config)
  assume a: "\<forall>item \<in> set (out_entries self).
             map_of (generated_handlers self) (item_name item) =
               Some (spec_ResultHandler (click_name item) (names item)) \<and>
             kwargs (click_name item) = None \<and>
             cmd_fallback_of self kwargs (names item) = None"
  have v: "out_value self kwargs item = Value (derive dir (names item))"
    if "item \<in> set (out_entries self)" for item
  proof -
    from a that have "map_of (generated_handlers self) (item_name item) =
               Some (spec_ResultHandler (click_name item) (names item))"
      "kwargs (click_name item) = None" "cmd_fallback_of self kwargs (names item) = None"
      by simp_all
    then show ?thesis
      unfolding out_value_def o
      by (simp add: spec_ResultHandler_def spec_locate_value_def fallback_def)
  qed
  then have m: "map (out_value self kwargs) (out_entries self) =
      map (\<lambda>item. Value (derive dir (names item))) (out_entries self)"
    by simp
  have fv: "found_values (map (\<lambda>x. Value (f x)) xs) = map f xs \<and>
        missing_names (map (\<lambda>x. Value (f x)) xs) = []" for f :: "item \<Rightarrow> 'a" and xs
    by (induction xs) simp_all
  show "handle_out_params self kwargs =
            (map (\<lambda>item. Resolve (item_name item)) (out_entries self),
             Return (map (\<lambda>item. derive dir (names item)) (out_entries self), []))"
    unfolding handle_out_params_eq[OF assms(1)] outputs_of_def missing_out_def m
    using fv by simp
qed

theorem output_dir_from_command_config_witness:
  "out_fallback_of example_command (flags [(lit ''cmd_config'', lit ''no-c.cfg'')]) =
     (\<lambda>args. Some (lit ''out'' @ [47] @ concat args)) \<and>
   handle_out_params example_command (flags [(lit ''cmd_config'', lit ''no-c.cfg'')]) =
     ([Resolve (lit ''c'')], Return ([lit ''out'' @ [47] @ lit ''c''], []))"
proof -
  let ?kw = "flags [(lit ''cmd_config'', lit ''no-c.cfg'')]"
  have h3: "?kw (lit ''output_dir'') = None"
    by (simp add: flags_simps lit_eq_iff)
  have h4: "cmd_fallback_of example_command ?kw [lit ''output_dir''] = Some (lit ''out'')"
    unfolding example_cmd_fallback by (simp add: flags_simps lit_eq_iff)
  have h5: "\<forall>item \<in> set (out_entries example_command).
             map_of (generated_handlers example_command) (item_name item) =
               Some (spec_ResultHandler (item_name item) [item_name item]) \<and>
             ?kw (item_name item) = None \<and>
             cmd_fallback_of example_command ?kw [item_name item] = None"
    unfolding example_out_entries example_generated_handlers example_cmd_fallback
    by (simp add: flags_simps lit_eq_iff)
  note t = output_dir_from_command_config[OF example_has_handlers example_fields(3) h3 h4]
  have 1: "out_fallback_of example_command ?kw = (\<lambda>args. Some (lit ''out'' @ [47] @ concat args))"
    by (rule t[THEN conjunct1])
  from t[THEN conjunct2, THEN mp, OF h5]
  have 2: "handle_out_params example_command ?kw =
     ([Resolve (lit ''c'')], Return ([lit ''out'' @ [47] @ lit ''c''], []))"
    unfolding example_out_entries by simp
  from 1 2 show ?thesis by (rule conjI)
qed

section \<open>\<open>PluginCommand.get_command\<close>\<close>

lemma action_lookup_loop_None:
  "map_of (action_lookup_loop f items lookup) k = None \<longleftrightarrow>
     k \<notin> f ` fst ` set items \<and> map_of lookup k = None"
proof (induction items arbitrary: lookup)
  case Nil
  then show ?case by simp
next
  case (Cons p items)
  obtain ident a where p: "p = (ident, a)" by (cases p)
  show ?case unfolding p action_lookup_loop.simps Cons.IH update_conv' by auto
qed

lemma action_lookup_loop_Some:
  "map_of (action_lookup_loop f items lookup) k = Some a \<Longrightarrow>
     (\<exists>ident. (ident, a) \<in> set items \<and> f ident = k) \<or> map_of lookup k = Some a"
proof (induction items arbitrary: lookup)
  case Nil
  then show ?case by simp
next
  case (Cons p items)
  obtain ident b where p: "p = (ident, b)" by (cases p)
  from Cons.prems have "map_of (action_lookup_loop f items (AList.update (f ident) b lookup)) k = Some a"
    unfolding p by simp
  from Cons.IH[OF this] show ?case
    unfolding p update_Some_unfold by auto
qed


text \<open>
  Claim C7. For a plugin command built from a plugin, a name that is not the CLI name of
  any of the plugin's actions makes \<open>get_command\<close> print, on the error stream, the line
  \<open>Error: QIIME 2 plugin <plugin> has no action <name>.\<close> with the \<open>repr\<close> of the
  plugin's name and of the requested name in it, and end with status 2. A name that is
  the CLI name of an action of the plugin makes it print nothing and return a new
  \<open>ActionCommand\<close> built from that name, the plugin and that action.
\<close>

theorem unknown_action_exits_with_status_2:
  "(name \<notin> to_cli_name q ` fst ` set (actions plugin) \<longrightarrow>
      PluginCommand_get_command repr q (PluginCommand_init q plugin pname) name =
        ([Echo (lit ''Error: QIIME 2 plugin '' @ repr (plugin_name plugin) @
                lit '' has no action '' @ repr name @ lit ''.'') True],
         Exit 2) \<and>
      str_in (repr (plugin_name plugin))
        (lit ''Error: QIIME 2 plugin '' @ repr (plugin_name plugin) @
         lit '' has no action '' @ repr name @ lit ''.'') \<and>
      str_in (repr name)
        (lit ''Error: QIIME 2 plugin '' @ repr (plugin_name plugin) @
         lit '' has no action '' @ repr name @ lit ''.'')) \<and>
   (name \<in> to_cli_name q ` fst ` set (actions plugin) \<longrightarrow>
      (\<exists>ident action.
         (ident, action) \<in> set (actions plugin) \<and> to_cli_name q ident = name \<and>
         PluginCommand_get_command repr q (PluginCommand_init q plugin pname) name =
           ([], Return (ActionCommand_init q name plugin action))))"
proof (intro conjI impI)
  let ?self = "PluginCommand_init q plugin pname"
  have l: "action_lookup ?self = action_lookup_loop (to_cli_name q) (actions plugin) []"
    and pl: "pc_plugin ?self = plugin"
    by (simp_all add: PluginCommand_init_def Let_def)
  {
    assume "name \<notin> to_cli_name q ` fst ` set (actions plugin)"
    then have "map_of (action_lookup ?self) name = None"
      unfolding l action_lookup_loop_None by simp
    then show "PluginCommand_get_command repr q ?self name =
        ([Echo (lit ''Error: QIIME 2 plugin '' @ repr (plugin_name plugin) @
                lit '' has no action '' @ repr name @ lit ''.'') True],
         Exit 2)"
      unfolding PluginCommand_get_command_def pl by simp
  }
  show "str_in (repr (plugin_name plugin))
        (lit ''Error: QIIME 2 plugin '' @ repr (plugin_name plugin) @
         lit '' has no action '' @ repr name @ lit ''.'')"
    by (rule str_in_appendI)
  have "str_in (repr name)
        ((lit ''Error: QIIME 2 plugin '' @ repr (plugin_name plugin) @
         lit '' has no action '') @ repr name @ lit ''.'')"
    by (rule str_in_appendI)
  then show "str_in (repr name)
        (lit ''Error: QIIME 2 plugin '' @ repr (plugin_name plugin) @
         lit '' has no action '' @ repr name @ lit ''.'')"
    by simp
  {
    assume "name \<in> to_cli_name q ` fst ` set (actions plugin)"
    then have "map_of (action_lookup ?self) name \<noteq> None"
      unfolding l action_lookup_loop_None by simp
    then obtain action where a: "map_of (action_lookup ?self) name = Some action" by blast
    then have "(\<exists>ident. (ident, action) \<in> set (actions plugin) \<and> to_cli_name q ident = name) \<or>
        map_of [] name = Some action"
      unfolding l by (rule action_lookup_loop_Some)
    then obtain ident where "(ident, action) \<in> set (actions plugin)" "to_cli_name q ident = name"
      by auto
    moreover have "PluginCommand_get_command repr q ?self name =
           ([], Return (ActionCommand_init q name plugin action))"
      unfolding PluginCommand_get_command_def pl a by simp
    ultimately show "\<exists>ident action.
         (ident, action) \<in> set (actions plugin) \<and> to_cli_name q ident = name \<and>
         PluginCommand_get_command repr q ?self name =
           ([], Return (ActionCommand_init q name plugin action))"
      by blast
  }
qed

theorem unknown_action_witness:
  "PluginCommand_get_command (\<lambda>s. [39] @ s @ [39]) example_q2cli
     (PluginCommand_init example_q2cli example_plugin (lit ''demo'')) (lit ''nope'') =
     ([Echo (lit ''Error: QIIME 2 plugin '' @ ([39] @ lit ''demo'' @ [39]) @
             lit '' has no action '' @ ([39] @ lit ''nope'' @ [39]) @ lit ''.'') True],
      Exit 2) \<and>
   PluginCommand_get_command (\<lambda>s. [39] @ s @ [39]) example_q2cli
     (PluginCommand_init example_q2cli example_plugin (lit ''demo'')) (lit ''split-it'') =
     ([], Return example_split_command)"
proof -
  let ?self = "PluginCommand_init example_q2cli example_plugin (lit ''demo'')"
  let ?repr = "\<lambda>s::str. [39] @ s @ [39]"
  have img: "to_cli_name example_q2cli ` fst ` set (actions example_plugin) =
      {lit ''do-it'', lit ''split-it''}"
    by (simp add: example_q2cli_def example_plugin_def lit_def)
  have n: "lit ''nope'' \<notin> to_cli_name example_q2cli ` fst ` set (actions example_plugin)"
    unfolding img by (simp add: lit_eq_iff)
  have y: "lit ''split-it'' \<in> to_cli_name example_q2cli ` fst ` set (actions example_plugin)"
    unfolding img by simp
  have pn: "plugin_name example_plugin = lit ''demo''" by (simp add: example_plugin_def)
  from unknown_action_exits_with_status_2[where repr = ?repr and q = example_q2cli
      and plugin = example_plugin and pname = "lit ''demo''" and name = "lit ''nope''",
      THEN conjunct1, THEN mp, OF n, THEN conjunct1]
  have 1: "PluginCommand_get_command ?repr example_q2cli ?self (lit ''nope'') =
     ([Echo (lit ''Error: QIIME 2 plugin '' @ ([39] @ lit ''demo'' @ [39]) @
             lit '' has no action '' @ ([39] @ lit ''nope'' @ [39]) @ lit ''.'') True],
      Exit 2)"
    unfolding pn .
  from unknown_action_exits_with_status_2[where repr = ?repr and q = example_q2cli
      and plugin = example_plugin and pname = "lit ''demo''" and name = "lit ''split-it''",
      THEN conjunct2, THEN mp, OF y]
  obtain ident action where a: "(ident, action) \<in> set (actions example_plugin)"
    "to_cli_name example_q2cli ident = lit ''split-it''"
    "PluginCommand_get_command ?repr example_q2cli ?self (lit ''split-it'') =
       ([], Return (ActionCommand_init example_q2cli (lit ''split-it'') example_plugin action))"
    by (elim exE conjE)
  from a(1) have "(ident, action) = (lit ''do_it'', example_action) \<or>
      (ident, action) = (lit ''split_it'', example_split_action)"
    by (simp add: example_plugin_def)
  moreover have "to_cli_name example_q2cli (lit ''do_it'') \<noteq> lit ''split-it''"
    by (simp add: example_q2cli_def lit_def)
  ultimately have "action = example_split_action" using a(2) by auto
  with a(3) have 2: "PluginCommand_get_command ?repr example_q2cli ?self (lit ''split-it'') =
     ([], Return example_split_command)"
    unfolding example_split_command_def by simp
  from 1 2 show ?thesis by (rule conjI)
qed

section \<open>The plugin snapshot of \<open>RootCommand\<close>\<close>

lemma plugin_lookup_loaded:
  "plugins_snapshot self = Some plugins \<Longrightarrow>
     plugin_lookup to_cli cache self = (name_map_loop to_cli plugins [], self, 0)"
  by (simp add: plugin_lookup_def)

lemma plugin_lookups_loaded:
  "plugins_snapshot self = Some plugins \<Longrightarrow>
     plugin_lookups to_cli caches self =
       (replicate (length caches) (name_map_loop to_cli plugins []), self, 0)"
  by (induction caches) (simp_all add: plugin_lookup_loaded)

lemma plugin_lookups_first:
  assumes "plugins_snapshot self = None"
  shows "plugin_lookups to_cli (cache # caches) self =
       (replicate (Suc (length caches)) (name_map_loop to_cli cache []),
        self\<lparr>plugins_snapshot := Some cache\<rparr>, 1)"
proof -
  have 1: "plugin_lookup to_cli cache self =
      (name_map_loop to_cli cache [], self\<lparr>plugins_snapshot := Some cache\<rparr>, 1)"
    using assms by (simp add: plugin_lookup_def)
  have 2: "plugins_snapshot (self\<lparr>plugins_snapshot := Some cache\<rparr>) = Some cache" by simp
  show ?thesis
    using plugin_lookups_loaded[OF 2, of to_cli caches] by (simp add: 1)
qed


text \<open>
  Claim C8. Once \<open>_plugins\<close> holds a snapshot, loaded or injected, every later access
  of \<open>_plugin_lookup\<close> builds its name map from that snapshot, leaves the state as it
  is and does not read the cache, whatever the cache holds by then. Starting without a
  snapshot, the first access reads the cache once and stores what it read, and all
  further accesses use that. So no run of accesses reads the cache more than once.
\<close>

theorem plugin_snapshot_read_at_most_once:
  "(plugins_snapshot self = Some plugins \<longrightarrow>
      plugin_lookups to_cli caches self =
        (replicate (length caches) (name_map_loop to_cli plugins []), self, 0)) \<and>
   (plugins_snapshot self = None \<longrightarrow>
      plugin_lookups to_cli (cache # caches) self =
        (replicate (Suc (length caches)) (name_map_loop to_cli cache []),
         self\<lparr>plugins_snapshot := Some cache\<rparr>, 1)) \<and>
   snd (snd (plugin_lookups to_cli caches self)) \<le> 1"
proof (intro conjI impI)
  assume "plugins_snapshot self = Some plugins"
  then show "plugin_lookups to_cli caches self =
        (replicate (length caches) (name_map_loop to_cli plugins []), self, 0)"
    by (rule plugin_lookups_loaded)
next
  assume "plugins_snapshot self = None"
  then show "plugin_lookups to_cli (cache # caches) self =
        (replicate (Suc (length caches)) (name_map_loop to_cli cache []),
         self\<lparr>plugins_snapshot := Some cache\<rparr>, 1)"
    by (rule plugin_lookups_first)
next
  show "snd (snd (plugin_lookups to_cli caches self)) \<le> 1"
  proof (cases "plugins_snapshot self")
    case (Some plugins)
    then show ?thesis by (simp add: plugin_lookups_loaded)
  next
    case None
    show ?thesis
    proof (cases caches)
      case Nil
      then show ?thesis by simp
    next
      case (Cons c cs)
      show ?thesis unfolding Cons plugin_lookups_first[OF None] by simp
    qed
  qed
qed

theorem plugin_snapshot_witness:
  "plugin_lookups (to_cli_name example_q2cli) [[(lit ''q2_demo'', example_plugin)], []]
     \<lparr>plugins_snapshot = None\<rparr> =
     ([[(lit ''q2-demo'', example_plugin)], [(lit ''q2-demo'', example_plugin)]],
      \<lparr>plugins_snapshot = Some [(lit ''q2_demo'', example_plugin)]\<rparr>, 1) \<and>
   plugin_lookups (to_cli_name example_q2cli) [[(lit ''q2_demo'', example_plugin)], []]
     \<lparr>plugins_snapshot = Some []\<rparr> =
     ([[], []], \<lparr>plugins_snapshot = Some []\<rparr>, 0)"
proof -
  let ?c = "[(lit ''q2_demo'', example_plugin)]"
  have e: "plugins_snapshot \<lparr>plugins_snapshot = None\<rparr> = None" by simp
  have i: "plugins_snapshot \<lparr>plugins_snapshot = Some []\<rparr> = Some []" by simp
  have nm: "name_map_loop (to_cli_name example_q2cli) ?c [] = [(lit ''q2-demo'', example_plugin)]"
    by (simp add: example_q2cli_def example_plugin_def lit_def)
  from plugin_snapshot_read_at_most_once[where self = "\<lparr>plugins_snapshot = None\<rparr>"
      and to_cli = "to_cli_name example_q2cli" and cache = ?c and caches = "[[]]",
      THEN conjunct2, THEN conjunct1, THEN mp, OF e]
  have 1: "plugin_lookups (to_cli_name example_q2cli) [?c, []] \<lparr>plugins_snapshot = None\<rparr> =
     ([[(lit ''q2-demo'', example_plugin)], [(lit ''q2-demo'', example_plugin)]],
      \<lparr>plugins_snapshot = Some ?c\<rparr>, 1)"
    unfolding nm by simp
  from plugin_snapshot_read_at_most_once[where self = "\<lparr>plugins_snapshot = Some []\<rparr>"
      and to_cli = "to_cli_name example_q2cli" and plugins = "[]" and caches = "[?c, []]",
      THEN conjunct1, THEN mp, OF i]
  have 2: "plugin_lookups (to_cli_name example_q2cli) [?c, []] \<lparr>plugins_snapshot = Some []\<rparr> =
     ([[], []], \<lparr>plugins_snapshot = Some []\<rparr>, 0)"
    by simp
  from 1 2 show ?thesis by (rule conjI)
qed

end
